theory Spec2Isabelle
  imports Complex_Main "HOL-Library.Word"
begin

unbundle bit_operations_syntax

section \<open>Sample conversion (services/livekit.ts)\<close>

text \<open>
  Audio samples are JavaScript numbers read from a \<open>Float32Array\<close>. Every finite float is a
  rational number, and the capture-side arithmetic is exact on float32 inputs: comparing and
  clamping are exact, \<open>s * 0x8000\<close> is a scaling by a power of two, and \<open>s * 0x7FFF\<close> has
  at most 24 + 15 significant bits, which a double holds. Samples are therefore modelled as
  \<open>real\<close>; NaN and the infinities are outside the model.

  Storing a number into an \<open>Int16Array\<close> applies the language's ToInt16 conversion: the
  fractional part is dropped (truncation towards zero) and the integer is reduced modulo
  \<open>2^16\<close> into the signed 16-bit range.
\<close>

definition ToInt16 :: "real \<Rightarrow> 16 word" where
  "ToInt16 v = word_of_int (if v < 0 then \<lceil>v\<rceil> else \<lfloor>v\<rfloor>)"

text \<open>
  \<^verbatim>\<open>const s = Math.max(-1, Math.min(1, inputData[i]));
pcm16[i] = s < 0 ? s * 0x8000 : s * 0x7FFF;\<close>
\<close>

definition floatToPCM16_sample :: "real \<Rightarrow> 16 word" where
  "floatToPCM16_sample x =
     (let s = max (- 1) (min 1 x)
      in ToInt16 (if s < 0 then s * 32768 else s * 32767))"

definition floatToPCM16 :: "real list \<Rightarrow> 16 word list" where
  "floatToPCM16 inputData = map floatToPCM16_sample inputData"

text \<open>
  An \<open>ArrayBuffer\<close> is a list of bytes. \<open>pcm16.buffer\<close> is the buffer under an
  \<open>Int16Array\<close>: two bytes per sample, low byte first (typed arrays use the byte order of the
  platform, little-endian on every platform that runs a browser). \<open>new Int16Array(buffer)\<close>
  is the opposite view; it throws a RangeError when the byte length is odd.
\<close>

type_synonym array_buffer = "8 word list"

definition int16_bytes :: "16 word \<Rightarrow> array_buffer" where
  "int16_bytes w = [ucast w, ucast (drop_bit 8 w)]"

definition int16_buffer :: "16 word list \<Rightarrow> array_buffer" where
  "int16_buffer pcm16 = concat (map int16_bytes pcm16)"

definition int16_of_bytes :: "8 word \<Rightarrow> 8 word \<Rightarrow> 16 word" where
  "int16_of_bytes lo hi = ucast lo OR push_bit 8 (ucast hi)"

datatype audio_error = RangeError | NotSupportedError

fun Int16Array :: "array_buffer \<Rightarrow> audio_error + 16 word list" where
  "Int16Array [] = Inr []"
| "Int16Array [b] = Inl RangeError"
| "Int16Array (lo # hi # rest) =
     (case Int16Array rest of
        Inl e \<Rightarrow> Inl e
      | Inr ws \<Rightarrow> Inr (int16_of_bytes lo hi # ws))"

text \<open>
  \<^verbatim>\<open>float32[i] = pcm16[i] / (pcm16[i] < 0 ? 0x8000 : 0x7FFF);\<close>

  The quotient by \<open>0x7FFF\<close> is in general not a float, and the store into the
  \<open>Float32Array\<close> rounds it. The rounding is the parameter \<open>fround\<close>: the float32 the
  platform stores for the exact quotient.
\<close>

definition pcm16ToFloat_sample :: "(real \<Rightarrow> real) \<Rightarrow> 16 word \<Rightarrow> real" where
  "pcm16ToFloat_sample fround p =
     fround (real_of_int (sint p) / (if sint p < 0 then 32768 else 32767))"

definition pcm16ToFloat :: "(real \<Rightarrow> real) \<Rightarrow> 16 word list \<Rightarrow> real list" where
  "pcm16ToFloat fround pcm16 = map (pcm16ToFloat_sample fround) pcm16"

section \<open>LiveKitService: capture and playback (services/livekit.ts)\<close>

text \<open>
  An \<open>AudioBufferSourceNode\<close> is an object shared between \<open>scheduledSources\<close>, its own
  \<open>onended\<close> closure and the audio graph. The nodes live in a store (\<open>nodes\<close>, a node's
  reference is its index) and \<open>scheduledSources\<close> holds references. A node records the
  channel data of its buffer, the time given to \<open>start\<close> and whether \<open>stop\<close> was called.
\<close>

record buffer_source =
  channelData :: "real list"
  startedAt :: real
  stopCalled :: bool

text \<open>
  The fields of the class that capture and playback use. A callback field holds whether a
  callback is registered; what a callback does is outside the class, so calling it is an
  event of the result. \<open>wasActive\<close> is the local variable of \<open>startAudioCapture\<close> that the
  \<open>onaudioprocess\<close> closure captures. \<open>localAudioTrack\<close> is \<open>None\<close> for null, and otherwise
  tells whether the track has a media stream.
\<close>

record livekit_service =
  localAudioTrack :: "bool option"
  processor :: bool
  voiceActivityThreshold :: real
  onVoiceActivityCallback :: bool
  onAudioDataCallback :: bool
  wasActive :: bool
  playbackAudioContext :: bool
  playbackAnalyser :: bool
  nextStartTime :: real
  scheduledSources :: "nat list"
  nodes :: "buffer_source list"

definition LiveKitService_new :: livekit_service where
  "LiveKitService_new =
     \<lparr>localAudioTrack = None, processor = False, voiceActivityThreshold = 0.02,
      onVoiceActivityCallback = False, onAudioDataCallback = False, wasActive = False,
      playbackAudioContext = False, playbackAnalyser = False, nextStartTime = 0,
      scheduledSources = [], nodes = []\<rparr>"

datatype capture_error = MicrophoneNotEnabled | NoMediaStream

text \<open>
  \<open>startAudioCapture(callback, onVoiceActivity?)\<close>: the first argument is always a callback,
  the second tells whether \<open>onVoiceActivity\<close> was passed. The callbacks are stored before the
  media stream is checked.
\<close>

definition startAudioCapture :: "bool \<Rightarrow> livekit_service \<Rightarrow> capture_error option \<times> livekit_service" where
  "startAudioCapture onVoiceActivity s =
     (case localAudioTrack s of
        None \<Rightarrow> (Some MicrophoneNotEnabled, s)
      | Some mediaStream \<Rightarrow>
          (let s1 = s\<lparr>onAudioDataCallback := True, onVoiceActivityCallback := onVoiceActivity\<rparr>
           in if \<not> mediaStream then (Some NoMediaStream, s1)
              else (None, s1\<lparr>processor := True, wasActive := False\<rparr>)))"

datatype capture_event = VoiceActivity bool | AudioData array_buffer

text \<open>
  The \<open>onaudioprocess\<close> handler on one input block. The sum of squares is the source's loop;
  it is computed here in exact arithmetic (the source adds doubles, with rounding). For an
  empty block the source divides zero by zero, and the comparison of NaN with the threshold
  is false.
\<close>

definition rms :: "real list \<Rightarrow> real" where
  "rms inputData = sqrt (foldl (\<lambda>sum x. sum + x * x) 0 inputData / real (length inputData))"

definition isActive :: "livekit_service \<Rightarrow> real list \<Rightarrow> bool" where
  "isActive s inputData = (inputData \<noteq> [] \<and> rms inputData > voiceActivityThreshold s)"

definition onaudioprocess :: "real list \<Rightarrow> livekit_service \<Rightarrow> capture_event list \<times> livekit_service" where
  "onaudioprocess inputData s =
     (let active = isActive s inputData;
          changed = (onVoiceActivityCallback s \<and> active \<noteq> wasActive s);
          pcm16 = floatToPCM16 inputData
      in ((if changed then [VoiceActivity active] else []) @
          (if onAudioDataCallback s then [AudioData (int16_buffer pcm16)] else []),
          (if changed then s\<lparr>wasActive := active\<rparr> else s)))"

text \<open>The handler on a sequence of blocks, in order, with the events of all of them.\<close>

fun capture :: "real list list \<Rightarrow> livekit_service \<Rightarrow> capture_event list \<times> livekit_service" where
  "capture [] s = ([], s)"
| "capture (inputData # blocks) s =
     (let (evs, s1) = onaudioprocess inputData s;
          (evs', s2) = capture blocks s1
      in (evs @ evs', s2))"

text \<open>The arguments of the calls of the voice-activity callback among the events.\<close>

fun voiceActivityCalls :: "capture_event list \<Rightarrow> bool list" where
  "voiceActivityCalls [] = []"
| "voiceActivityCalls (VoiceActivity b # evs) = b # voiceActivityCalls evs"
| "voiceActivityCalls (AudioData d # evs) = voiceActivityCalls evs"

text \<open>
  \<open>playAudio(audioData)\<close>. \<open>now\<close> is the value of \<open>playbackAudioContext.currentTime\<close> during
  the call (the function has no await: it runs in one task). The sample rate of the buffer is
  the constant 24000 of the source, and \<open>audioBuffer.duration\<close> is the number of samples
  divided by it. \<open>createBuffer\<close> throws a NotSupportedError for a length of zero. Times are
  exact here; the source adds and compares doubles.

  A throw leaves the assignments made before it in place, so the result is the error, if any,
  together with the state.
\<close>

definition playAudio ::
  "(real \<Rightarrow> real) \<Rightarrow> real \<Rightarrow> array_buffer \<Rightarrow> livekit_service \<Rightarrow> audio_error option \<times> livekit_service" where
  "playAudio fround now audioData s =
     (let s1 = (if \<not> playbackAudioContext s
                then s\<lparr>playbackAudioContext := True, nextStartTime := now, playbackAnalyser := True\<rparr>
                else s)
      in case Int16Array audioData of
           Inl e \<Rightarrow> (Some e, s1)
         | Inr pcm16 \<Rightarrow>
             (let float32 = pcm16ToFloat fround pcm16
              in if length float32 = 0 then (Some NotSupportedError, s1)
                 else
                   (let duration = real (length float32) / 24000;
                        startTime = max (nextStartTime s1) now;
                        source = length (nodes s1)
                    in (None,
                        s1\<lparr>nodes := nodes s1 @
                              [\<lparr>channelData = float32, startedAt = startTime, stopCalled = False\<rparr>],
                            scheduledSources := scheduledSources s1 @ [source],
                            nextStartTime := startTime + duration\<rparr>))))"

text \<open>
  The \<open>onended\<close> handler of a source: \<open>indexOf\<close> and \<open>splice\<close> remove its first occurrence.
\<close>

definition onended :: "nat \<Rightarrow> livekit_service \<Rightarrow> livekit_service" where
  "onended source s = s\<lparr>scheduledSources := remove1 source (scheduledSources s)\<rparr>"

text \<open>
  \<open>interruptAudio()\<close>: \<open>stop\<close> on every scheduled source (an exception of \<open>stop\<close> is caught
  and ignored), the list is replaced by an empty one, and the timing is reset when there is a
  playback context; \<open>now\<close> is its \<open>currentTime\<close>.
\<close>

definition stop :: "nat \<Rightarrow> buffer_source list \<Rightarrow> buffer_source list" where
  "stop source ns = (if source < length ns then ns[source := (ns ! source)\<lparr>stopCalled := True\<rparr>] else ns)"

definition interruptAudio :: "real \<Rightarrow> livekit_service \<Rightarrow> livekit_service" where
  "interruptAudio now s =
     (let s1 = s\<lparr>nodes := foldl (\<lambda>ns source. stop source ns) (nodes s) (scheduledSources s),
                 scheduledSources := []\<rparr>
      in if playbackAudioContext s1 then s1\<lparr>nextStartTime := now\<rparr> else s1)"

section \<open>GeminiService (services/gemini.ts)\<close>

text \<open>
  The class \<open>GeminiService\<close>; its text stands in src/components/HudGreeting.tsx, after the
  component.

  JSON values, and what JavaScript can throw: an instance of \<open>Error\<close> with its message, or
  any other value.
\<close>

datatype json =
  JNull | JBool bool | JNumber real | JString string | JArray "json list"
  | JObject "(string \<times> json) list"

datatype thrown = Error string | NonError

record function_call =
  name :: string
  args :: json
  call_id :: string

text \<open>
  The promise a function handler returns settles with a result or is rejected. A handler is
  the outcome of its promise for each call. A promise that never settles is not modelled: the
  \<open>await\<close> on it would never return.
\<close>

datatype settled = Resolved json | Rejected thrown

type_synonym function_handler = "function_call \<Rightarrow> settled"

text \<open>
  The four messages the service writes to the socket. \<open>Setup\<close> carries the system prompt;
  the model name, the voice and \<open>FUNCTION_DEFINITIONS\<close> are constants of the source.
  \<open>RealtimeInput\<close> carries the audio bytes (the source sends them in base64).
\<close>

datatype client_message =
  Setup string
  | RealtimeInput array_buffer
  | ClientContent string
  | ToolResponse string json

text \<open>
  What the service does to the outside, in the order it does it: a message written to the
  socket, or a call of a registered handler.
\<close>

datatype event =
  Sent client_message
  | FunctionHandlerCalled function_call
  | AudioResponseCalled array_buffer
  | TextResponseCalled string
  | ErrorHandlerCalled thrown

datatype ready_state = CONNECTING | OPEN | CLOSING | CLOSED

datatype promise_state = Pending | Fulfilled | RejectedWith thrown

text \<open>
  The fields of the class. \<open>ws\<close> is \<open>None\<close> for null and otherwise the \<open>readyState\<close> of
  the socket. The audio, text and error handlers are recorded as registered or not; calling
  one is an event. \<open>connectPromise\<close> is the promise the last \<open>connect\<close> returned. \<open>trace\<close>
  is the sequence of events so far.
\<close>

record gemini_service =
  ws :: "ready_state option"
  apiKey :: string
  onAudioResponseHandler :: bool
  onTextResponseHandler :: bool
  onErrorHandler :: bool
  functionHandler :: "function_handler option"
  connectPromise :: "promise_state option"
  trace :: "event list"

definition GeminiService_new :: gemini_service where
  "GeminiService_new =
     \<lparr>ws = None, apiKey = [], onAudioResponseHandler = False, onTextResponseHandler = False,
      onErrorHandler = False, functionHandler = None, connectPromise = None, trace = []\<rparr>"

record gemini_config =
  config_apiKey :: string
  systemPrompt :: string

text \<open>
  What the service cannot decide: \<open>during_await call\<close> is what other tasks (\<open>disconnect()\<close>,
  the socket closing) do to the \<open>ws\<close> field while the handler's promise for \<open>call\<close> is
  pending, and \<open>dateNow\<close> is \<open>Date.now().toString()\<close>.
\<close>

record environment =
  during_await :: "function_call \<Rightarrow> ready_state option \<Rightarrow> ready_state option"
  dateNow :: string

definition emit :: "event \<Rightarrow> gemini_service \<Rightarrow> gemini_service" where
  "emit e s = s\<lparr>trace := trace s @ [e]\<rparr>"

definition isConnected :: "gemini_service \<Rightarrow> bool" where
  "isConnected s = (ws s \<noteq> None \<and> ws s = Some OPEN)"

text \<open>
  \<open>connect(config)\<close> up to the point where it returns the promise: the socket is created
  (connecting) and the four socket handlers are installed. The handlers are closures over
  \<open>config\<close> and over the promise's \<open>resolve\<close> and \<open>reject\<close>, which have no effect on a
  promise that is already settled.
\<close>

definition connect :: "gemini_config \<Rightarrow> gemini_service \<Rightarrow> gemini_service" where
  "connect config s =
     s\<lparr>apiKey := config_apiKey config, ws := Some CONNECTING, connectPromise := Some Pending\<rparr>"

definition settle :: "promise_state \<Rightarrow> gemini_service \<Rightarrow> gemini_service" where
  "settle p s = (if connectPromise s = Some Pending then s\<lparr>connectPromise := Some p\<rparr> else s)"

text \<open>
  \<open>WebSocket.send\<close>: it throws while the socket is connecting, writes when it is open and
  silently discards the data when it is closing or closed.
\<close>

definition ws_send :: "client_message \<Rightarrow> gemini_service \<Rightarrow> thrown option \<times> gemini_service" where
  "ws_send m s =
     (case ws s of
        Some CONNECTING \<Rightarrow> (Some (Error ''InvalidStateError''), s)
      | Some OPEN \<Rightarrow> (None, emit (Sent m) s)
      | _ \<Rightarrow> (None, s))"

text \<open>
  \<open>ws.onopen\<close>: \<open>this.ws?.send(JSON.stringify(setupMessage)); resolve();\<close>. An exception
  of \<open>send\<close> leaves the handler before \<open>resolve\<close>.
\<close>

definition ws_onopen :: "gemini_config \<Rightarrow> gemini_service \<Rightarrow> gemini_service" where
  "ws_onopen config s =
     (case ws s of
        None \<Rightarrow> settle Fulfilled s
      | Some r \<Rightarrow>
          (case ws_send (Setup (systemPrompt config)) s of
             (Some e, s1) \<Rightarrow> s1
           | (None, s1) \<Rightarrow> settle Fulfilled s1))"

definition ws_onerror :: "gemini_service \<Rightarrow> gemini_service" where
  "ws_onerror s = settle (RejectedWith (Error ''Failed to connect to Gemini Live API'')) s"

definition ws_onclose :: "gemini_service \<Rightarrow> gemini_service" where
  "ws_onclose s = s"

text \<open>The socket of \<open>connect(config)\<close> opens: its state changes and \<open>onopen\<close> runs.\<close>

definition socket_opened :: "gemini_config \<Rightarrow> gemini_service \<Rightarrow> gemini_service" where
  "socket_opened config s =
     (if ws s = Some CONNECTING then ws_onopen config (s\<lparr>ws := Some OPEN\<rparr>) else s)"

definition disconnect :: "gemini_service \<Rightarrow> gemini_service" where
  "disconnect s = (case ws s of None \<Rightarrow> s | Some r \<Rightarrow> s\<lparr>ws := None\<rparr>)"

text \<open>
  The three senders share their shape: a guard that throws when the socket is missing or not
  open, then the write. Past the guard the socket is open and the message is a finite JSON
  tree, so neither \<open>JSON.stringify\<close> nor \<open>send\<close> throws and the \<open>catch\<close> block of the
  source (report to the error handler, rethrow) is not entered.
\<close>

definition sendAudio :: "array_buffer \<Rightarrow> gemini_service \<Rightarrow> thrown option \<times> gemini_service" where
  "sendAudio audioData s =
     (if ws s = None \<or> ws s \<noteq> Some OPEN then (Some (Error ''Not connected to Gemini''), s)
      else (None, emit (Sent (RealtimeInput audioData)) s))"

definition sendText :: "string \<Rightarrow> gemini_service \<Rightarrow> thrown option \<times> gemini_service" where
  "sendText t s =
     (if ws s = None \<or> ws s \<noteq> Some OPEN then (Some (Error ''Not connected to Gemini''), s)
      else (None, emit (Sent (ClientContent t)) s))"

definition sendFunctionResult :: "string \<Rightarrow> json \<Rightarrow> gemini_service \<Rightarrow> thrown option \<times> gemini_service" where
  "sendFunctionResult callId result s =
     (if ws s = None \<or> ws s \<noteq> Some OPEN then (Some (Error ''Not connected to Gemini''), s)
      else (None, emit (Sent (ToolResponse callId result)) s))"

text \<open>
  \<^verbatim>\<open>{ error: error instanceof Error ? error.message : 'Function execution failed' }\<close>
\<close>

definition errorResult :: "thrown \<Rightarrow> json" where
  "errorResult error =
     JObject [(''error'',
       JString (case error of Error message \<Rightarrow> message | NonError \<Rightarrow> ''Function execution failed''))]"

text \<open>
  \<open>handleFunctionCall(call)\<close>. With a handler, the handler is called and awaited; the socket
  is read again only after the await. A failure of the first \<open>sendFunctionResult\<close> is caught
  like a rejection of the handler, and a failure of the one in the \<open>catch\<close> block leaves the
  function.
\<close>

definition handleFunctionCall ::
  "environment \<Rightarrow> function_call \<Rightarrow> gemini_service \<Rightarrow> thrown option \<times> gemini_service" where
  "handleFunctionCall env call s =
     (case functionHandler s of
        None \<Rightarrow>
          sendFunctionResult (call_id call)
            (JObject [(''error'', JString ''No function handler registered'')]) s
      | Some handler \<Rightarrow>
          (let s1 = emit (FunctionHandlerCalled call) s;
               s2 = s1\<lparr>ws := during_await env call (ws s1)\<rparr>
           in case handler call of
                Resolved result \<Rightarrow>
                  (case sendFunctionResult (call_id call) result s2 of
                     (None, s3) \<Rightarrow> (None, s3)
                   | (Some error, s3) \<Rightarrow> sendFunctionResult (call_id call) (errorResult error) s3)
              | Rejected error \<Rightarrow> sendFunctionResult (call_id call) (errorResult error) s2))"

text \<open>
  A parsed message, by the fields \<open>handleMessage\<close> reads. An entry of
  \<open>toolCall.functionCalls\<close> has a name, optional arguments and an id. A part of
  \<open>serverContent.modelTurn.parts\<close> has optional inline data (its mime type and its base64
  payload), optional text and an optional function call in the old format (name, arguments,
  optional id). A base64 payload is the bytes it decodes to; for a string that is not base64,
  \<open>atob\<close> throws an exception, an instance of \<open>Error\<close> with a message of the platform.
\<close>

datatype base64 = Base64 array_buffer | NotBase64 string

record tool_function_call =
  tool_name :: string
  tool_args :: "json option"
  tool_id :: string

record part =
  inlineData :: "(string \<times> base64) option"
  part_text :: "string option"
  functionCall :: "(string \<times> json \<times> string option) option"

record server_message =
  setupComplete :: bool
  toolCall :: "tool_function_call list option"
  serverContent :: "part list option"
  toolCallCancellation :: bool

datatype inbound = Unparsable string | Message server_message

text \<open>JavaScript's falsy values among the JSON values, for \<open>functionCall.args || {}\<close>.\<close>

definition falsy :: "json \<Rightarrow> bool" where
  "falsy j = (j = JNull \<or> j = JBool False \<or> j = JNumber 0 \<or> j = JString [])"

definition args_or_empty :: "json option \<Rightarrow> json" where
  "args_or_empty a = (case a of None \<Rightarrow> JObject [] | Some j \<Rightarrow> if falsy j then JObject [] else j)"

text \<open>
  \<^verbatim>\<open>for (const functionCall of message.toolCall.functionCalls) {
  await this.handleFunctionCall({ name: ..., args: functionCall.args || {}, id: functionCall.id });
}\<close>
  Each iteration awaits \<open>handleFunctionCall\<close>: the next one starts when it has returned, and
  an exception ends the loop.
\<close>

fun handleToolCalls ::
  "environment \<Rightarrow> tool_function_call list \<Rightarrow> gemini_service \<Rightarrow> thrown option \<times> gemini_service" where
  "handleToolCalls env [] s = (None, s)"
| "handleToolCalls env (fc # rest) s =
     (case handleFunctionCall env
             \<lparr>name = tool_name fc, args = args_or_empty (tool_args fc), call_id = tool_id fc\<rparr> s of
        (Some error, s1) \<Rightarrow> (Some error, s1)
      | (None, s1) \<Rightarrow> handleToolCalls env rest s1)"

definition startsWith :: "string \<Rightarrow> string \<Rightarrow> bool" where
  "startsWith str p = (take (length p) str = p)"

text \<open>One part of the server content: audio, then text, then an old-format function call.\<close>

definition handlePart :: "environment \<Rightarrow> part \<Rightarrow> gemini_service \<Rightarrow> thrown option \<times> gemini_service" where
  "handlePart env p s =
     (let audio =
            (case inlineData p of
               Some (mimeType, payload) \<Rightarrow>
                 if startsWith mimeType ''audio/pcm'' then
                   (case payload of
                      NotBase64 message \<Rightarrow> (Some (Error message), s)
                    | Base64 audioData \<Rightarrow>
                        (None, if onAudioResponseHandler s then emit (AudioResponseCalled audioData) s else s))
                 else (None, s)
             | None \<Rightarrow> (None, s))
      in case audio of
           (Some error, s1) \<Rightarrow> (Some error, s1)
         | (None, s1) \<Rightarrow>
             (let s2 =
                    (case part_text p of
                       Some t \<Rightarrow>
                         if t \<noteq> [] \<and> onTextResponseHandler s1 then emit (TextResponseCalled t) s1 else s1
                     | None \<Rightarrow> s1)
              in case functionCall p of
                   None \<Rightarrow> (None, s2)
                 | Some (n, a, i) \<Rightarrow>
                     handleFunctionCall env
                       \<lparr>name = n, args = a,
                        call_id = (case i of None \<Rightarrow> dateNow env
                                   | Some x \<Rightarrow> if x = [] then dateNow env else x)\<rparr> s2))"

fun handleParts :: "environment \<Rightarrow> part list \<Rightarrow> gemini_service \<Rightarrow> thrown option \<times> gemini_service" where
  "handleParts env [] s = (None, s)"
| "handleParts env (p # parts) s =
     (case handlePart env p s of
        (Some error, s1) \<Rightarrow> (Some error, s1)
      | (None, s1) \<Rightarrow> handleParts env parts s1)"

text \<open>
  The \<open>catch\<close> block of \<open>handleMessage\<close>:
  \<^verbatim>\<open>this.onErrorHandler(error instanceof Error ? error : new Error('Unknown error'))\<close>
\<close>

definition reportError :: "thrown \<Rightarrow> gemini_service \<Rightarrow> gemini_service" where
  "reportError error s =
     (if onErrorHandler s
      then emit (ErrorHandlerCalled (case error of Error m \<Rightarrow> Error m | NonError \<Rightarrow> Error ''Unknown error'')) s
      else s)"

text \<open>
  \<open>handleMessage(data)\<close>: a message that does not parse goes to the \<open>catch\<close> block; a
  \<open>setupComplete\<close> message is logged and the function returns; otherwise the tool calls and
  then the server content are handled. The checks for executable code and for a cancellation
  only write to the console.
\<close>

definition handleMessage :: "environment \<Rightarrow> inbound \<Rightarrow> gemini_service \<Rightarrow> gemini_service" where
  "handleMessage env data s =
     (case data of
        Unparsable m \<Rightarrow> reportError (Error m) s
      | Message message \<Rightarrow>
          if setupComplete message then s
          else
            (case (case toolCall message of
                     None \<Rightarrow> (None, s)
                   | Some functionCalls \<Rightarrow> handleToolCalls env functionCalls s) of
               (Some error, s1) \<Rightarrow> reportError error s1
             | (None, s1) \<Rightarrow>
                 (case (case serverContent message of
                          None \<Rightarrow> (None, s1)
                        | Some parts \<Rightarrow> handleParts env parts s1) of
                    (Some error, s2) \<Rightarrow> reportError error s2
                  | (None, s2) \<Rightarrow> s2)))"

definition onFunctionCall :: "function_handler \<Rightarrow> gemini_service \<Rightarrow> gemini_service" where
  "onFunctionCall handler s = s\<lparr>functionHandler := Some handler\<rparr>"

section \<open>The page that joins the two services\<close>

text \<open>
  The \<open>Index\<close> page (src/unnamed/part_002) connects the session, then starts the capture.
  The callback \<open>handleConnect\<close> gives to \<open>startAudioCapture\<close>:
  \<^verbatim>\<open>async (audioData) => {
  try { await geminiService.sendAudio(audioData); }
  catch (error) { console.error('Failed to send audio to Gemini:', error); }
}\<close>
\<close>

definition onFrame :: "array_buffer \<Rightarrow> gemini_service \<Rightarrow> gemini_service" where
  "onFrame audioData s = (case sendAudio audioData s of (r, s1) \<Rightarrow> s1)"

text \<open>
  The frames the capture hands to its callback reach the session through \<open>onFrame\<close>, one call
  per \<open>AudioData\<close> event and in their order.
\<close>

fun deliver :: "capture_event list \<Rightarrow> gemini_service \<Rightarrow> gemini_service" where
  "deliver [] g = g"
| "deliver (AudioData audioData # evs) g = deliver evs (onFrame audioData g)"
| "deliver (VoiceActivity b # evs) g = deliver evs g"

section \<open>Notions used to state the properties\<close>

text \<open>
  The classifications that differ from the one before them: the calls an edge-triggered
  detector makes.
\<close>

fun edges :: "bool \<Rightarrow> bool list \<Rightarrow> bool list" where
  "edges prev [] = []"
| "edges prev (b # bs) = (if b \<noteq> prev then [b] else []) @ edges b bs"

text \<open>
  The number of times a sequence of classifications changes, the first one compared with the
  classification before the sequence.
\<close>

fun changes :: "bool \<Rightarrow> bool list \<Rightarrow> nat" where
  "changes prev [] = 0"
| "changes prev (b # bs) = (if b \<noteq> prev then 1 else 0) + changes b bs"

text \<open>A sequence that alternates, starting with \<open>b\<close>: \<open>b\<close>, not \<open>b\<close>, \<open>b\<close>, ...\<close>

fun alternating :: "bool \<Rightarrow> bool list \<Rightarrow> bool" where
  "alternating b [] = True"
| "alternating b (c # cs) = (c = b \<and> alternating (\<not> b) cs)"

text \<open>\<open>playAudio\<close> on a sequence of frames, each with the clock reading of its call.\<close>

fun playAudioAll ::
  "(real \<Rightarrow> real) \<Rightarrow> (real \<times> array_buffer) list \<Rightarrow> livekit_service \<Rightarrow> livekit_service" where
  "playAudioAll fround [] s = s"
| "playAudioAll fround ((now, audioData) # rest) s =
     playAudioAll fround rest (snd (playAudio fround now audioData s))"

text \<open>
  The start times of back-to-back scheduling: each frame, given with the clock reading of its
  call and its number of samples, starts at the later of the watermark and the clock, and
  moves the watermark to its end.
\<close>

fun scheduled_starts :: "real \<Rightarrow> (real \<times> nat) list \<Rightarrow> real list" where
  "scheduled_starts watermark [] = []"
| "scheduled_starts watermark ((now, n) # rest) =
     max watermark now # scheduled_starts (max watermark now + real n / 24000) rest"

text \<open>
  When a source has played to its end: the start it was given plus the duration of its buffer.
\<close>

definition endTime :: "buffer_source \<Rightarrow> real" where
  "endTime node = startedAt node + real (length (channelData node)) / 24000"

text \<open>
  The playback states the service can be in when the output clock reads \<open>t\<close>. Playback starts
  without a context and with nothing scheduled; the clock only advances; \<open>playAudio\<close> and
  \<open>interruptAudio\<close> read the clock when they are called; and the platform fires the \<open>ended\<close>
  event of a source only when the source was stopped or has played to its end.
\<close>

inductive playback_state :: "(real \<Rightarrow> real) \<Rightarrow> real \<Rightarrow> livekit_service \<Rightarrow> bool"
  for fround :: "real \<Rightarrow> real" where
  initial: "\<not> playbackAudioContext s \<Longrightarrow> scheduledSources s = [] \<Longrightarrow> playback_state fround t s"
| clock: "playback_state fround t s \<Longrightarrow> t \<le> t' \<Longrightarrow> playback_state fround t' s"
| play: "playback_state fround t s \<Longrightarrow> playback_state fround t (snd (playAudio fround t audioData s))"
| interrupt: "playback_state fround t s \<Longrightarrow> playback_state fround t (interruptAudio t s)"
| ended: "playback_state fround t s \<Longrightarrow> source < length (nodes s) \<Longrightarrow>
          stopCalled (nodes s ! source) \<or> endTime (nodes s ! source) \<le> t \<Longrightarrow>
          playback_state fround t (onended source s)"

text \<open>A JSON value that is a mapping with an \<open>error\<close> key.\<close>

definition error_shaped :: "json \<Rightarrow> bool" where
  "error_shaped j = (case j of JObject kvs \<Rightarrow> ''error'' \<in> set (map fst kvs) | _ \<Rightarrow> False)"

text \<open>The call \<open>handleMessage\<close> builds from an entry of a tool-call batch.\<close>

definition call_of :: "tool_function_call \<Rightarrow> function_call" where
  "call_of fc = \<lparr>name = tool_name fc, args = args_or_empty (tool_args fc), call_id = tool_id fc\<rparr>"

text \<open>
  Events in which the calls of the function handler do not overlap: every call of the handler
  is followed by the response to that call before the next call of the handler, except that
  the last call may be left without a response.
\<close>

fun sequential :: "event list \<Rightarrow> bool" where
  "sequential [] = True"
| "sequential [FunctionHandlerCalled c] = True"
| "sequential (FunctionHandlerCalled c # Sent (ToolResponse i r) # evs) = (i = call_id c \<and> sequential evs)"
| "sequential evs = False"

text \<open>
  The result the service sends for a call: what the handler resolved with, or the error
  object built from its rejection.
\<close>

definition response_to :: "function_handler \<Rightarrow> function_call \<Rightarrow> json" where
  "response_to handler call =
     (case handler call of Resolved result \<Rightarrow> result | Rejected error \<Rightarrow> errorResult error)"

text \<open>
  Concrete surroundings for the examples: an environment in which nothing happens to the
  socket while a handler runs, one in which \<open>disconnect()\<close> is called while a handler runs
  (it sets \<open>ws\<close> to null), a handler that resolves with the name of the function, a handler
  that rejects the weather call, the configuration of a connection, and a batch of two calls.
\<close>

definition keep_socket :: "function_call \<Rightarrow> ready_state option \<Rightarrow> ready_state option" where
  "keep_socket call socket = socket"

definition undisturbed :: environment where
  "undisturbed = \<lparr>during_await = keep_socket, dateNow = ''1700000000000''\<rparr>"

definition drop_socket :: "function_call \<Rightarrow> ready_state option \<Rightarrow> ready_state option" where
  "drop_socket call socket = None"

definition disconnected_meanwhile :: environment where
  "disconnected_meanwhile = \<lparr>during_await = drop_socket, dateNow = ''1700000000000''\<rparr>"

definition echo_handler :: function_handler where
  "echo_handler call = Resolved (JString (name call))"

definition weather_down_handler :: function_handler where
  "weather_down_handler call =
     (if name call = ''get_weather'' then Rejected (Error ''Weather service unavailable'')
      else Resolved (JString (name call)))"

definition mars_config :: gemini_config where
  "mars_config = \<lparr>config_apiKey = ''key'', systemPrompt = ''You are MARS''\<rparr>"

definition weather_and_search :: server_message where
  "weather_and_search =
     \<lparr>setupComplete = False,
      toolCall = Some [\<lparr>tool_name = ''get_weather'', tool_args = None, tool_id = ''a''\<rparr>,
                       \<lparr>tool_name = ''web_search'', tool_args = None, tool_id = ''b''\<rparr>],
      serverContent = None,
      toolCallCancellation = False\<rparr>"

text \<open>The watermark is the end of a scheduled source that has not been stopped.\<close>

definition pending :: "livekit_service \<Rightarrow> bool" where
  "pending s =
     (\<exists>i\<in>set (scheduledSources s). i < length (nodes s) \<and> \<not> stopCalled (nodes s ! i)
          \<and> endTime (nodes s ! i) = nextStartTime s)"

section \<open>Sample conversion: clamping, scaling and the round trip\<close>

lemma sint_ToInt16:
  assumes "- 32768 \<le> v" and "v \<le> 32767"
  shows "sint (ToInt16 v) = (if v < 0 then \<lceil>v\<rceil> else \<lfloor>v\<rfloor>)"
proof -
  let ?k = "if v < 0 then \<lceil>v\<rceil> else \<lfloor>v\<rfloor>"
  have lo: "- 32768 \<le> ?k"
    using assms by (auto simp: le_floor_iff le_ceiling_iff)
  have hi: "?k \<le> 32767"
    using assms by (auto simp: floor_le_iff ceiling_le_iff)
  have "sint (word_of_int ?k :: 16 word) = ?k"
    using lo hi by (simp add: sint_sbintrunc' signed_take_bit_int_eq_self)
  then show ?thesis
    by (simp add: ToInt16_def)
qed

lemma floatToPCM16_sample_sint:
  "sint (floatToPCM16_sample x) =
     (if x \<le> - 1 then - 32768
      else if x < 0 then \<lceil>x * 32768\<rceil>
      else if x \<le> 1 then \<lfloor>x * 32767\<rfloor>
      else 32767)"
proof -
  consider "x \<le> - 1" | "- 1 < x" "x < 0" | "0 \<le> x" "x \<le> 1" | "1 < x"
    by linarith
  then show ?thesis
  proof cases
    case 1
    then show ?thesis
      by (simp add: floatToPCM16_sample_def Let_def ToInt16_def max_def min_def)
  next
    case 2
    then have "sint (ToInt16 (x * 32768)) = \<lceil>x * 32768\<rceil>"
      using sint_ToInt16 [of "x * 32768"] by simp
    with 2 show ?thesis
      by (simp add: floatToPCM16_sample_def Let_def max_def min_def)
  next
    case 3
    then have "sint (ToInt16 (x * 32767)) = \<lfloor>x * 32767\<rfloor>"
      using sint_ToInt16 [of "x * 32767"] by simp
    with 3 show ?thesis
      by (simp add: floatToPCM16_sample_def Let_def max_def min_def)
  next
    case 4
    then show ?thesis
      by (simp add: floatToPCM16_sample_def Let_def ToInt16_def max_def min_def)
  qed
qed

text \<open>
  C4. The capture-side conversion gives one signed 16-bit sample for each input sample. An
  input at or below \<open>-1\<close> is clipped to \<open>-32768\<close> and an input at or above \<open>1\<close> to
  \<open>32767\<close>; in between, a negative input is multiplied by \<open>32768\<close> and a non-negative one by
  \<open>32767\<close>, and the fraction is dropped towards zero. The sample read back as a signed
  number is that integer: the conversion never wraps around, and it is defined on every
  input.
\<close>

theorem floatToPCM16_clamps_then_scales:
  "map sint (floatToPCM16 inputData) =
     map (\<lambda>x. if x \<le> - 1 then - 32768
              else if x < 0 then \<lceil>x * 32768\<rceil>
              else if x \<le> 1 then \<lfloor>x * 32767\<rfloor>
              else 32767) inputData"
  by (simp add: floatToPCM16_def floatToPCM16_sample_sint)

lemma int16_of_bytes_inverse: "int16_of_bytes (ucast w) (ucast (drop_bit 8 w)) = w"
  unfolding int16_of_bytes_def
  by (rule bit_word_eqI) (auto simp: bit_simps)

lemma Int16Array_int16_buffer: "Int16Array (int16_buffer pcm16) = Inr pcm16"
  by (induction pcm16) (simp_all add: int16_buffer_def int16_bytes_def int16_of_bytes_inverse)

lemma round_trip_sample:
  assumes rnd: "\<And>y. 1 / 32768 \<le> \<bar>y\<bar> \<Longrightarrow> \<bar>y\<bar> \<le> 1 \<Longrightarrow> \<bar>fround y - y\<bar> \<le> e * \<bar>y\<bar>"
    and zero: "fround 0 = 0"
    and x: "- 1 \<le> x" "x \<le> 1"
  shows "\<bar>pcm16ToFloat_sample fround (floatToPCM16_sample x) - x\<bar>
           < (if x < 0 then 1 / 32768 else 1 / 32767) + e"
proof -
  have e0: "0 \<le> e"
    using rnd [of 1] by simp
  have small: "\<bar>fround q - q\<bar> \<le> e" if "1 / 32768 \<le> \<bar>q\<bar>" "\<bar>q\<bar> \<le> 1" for q
  proof -
    have "e * \<bar>q\<bar> \<le> e * 1"
      using that e0 by (intro mult_left_mono) auto
    with rnd [OF that] show ?thesis by simp
  qed
  show ?thesis
  proof (cases "x < 0")
    case True
    define p where "p = \<lceil>x * 32768\<rceil>"
    have sp: "sint (floatToPCM16_sample x) = p"
      using True x by (auto simp: floatToPCM16_sample_sint p_def)
    have p1: "x * 32768 \<le> real_of_int p" "real_of_int p < x * 32768 + 1"
      unfolding p_def by linarith+
    have ple: "p \<le> 0"
      unfolding p_def using True by (simp add: ceiling_le_iff)
    have pge: "- 32768 \<le> p"
      unfolding p_def using x by (simp add: le_ceiling_iff)
    show ?thesis
    proof (cases "p < 0")
      case pneg: True
      define q where "q = real_of_int p / 32768"
      have q1: "0 \<le> q - x" "q - x < 1 / 32768"
        using p1 by (simp_all add: q_def field_simps)
      from pneg have "p \<le> - 1"
        by simp
      then have "real_of_int p \<le> - 1"
        by linarith
      then have "1 / 32768 \<le> \<bar>q\<bar>"
        by (simp add: q_def field_simps)
      moreover have "\<bar>q\<bar> \<le> 1"
        using ple pge by (simp add: q_def field_simps)
      ultimately have "\<bar>fround q - q\<bar> \<le> e"
        by (rule small)
      with q1 have "\<bar>fround q - x\<bar> < 1 / 32768 + e"
        by linarith
      with True pneg sp show ?thesis
        by (simp add: pcm16ToFloat_sample_def q_def)
    next
      case False
      with ple have p0: "p = 0" by simp
      have "\<bar>x\<bar> < 1 / 32768"
        using p1 True p0 by (simp add: field_simps)
      with True sp p0 zero e0 show ?thesis
        by (simp add: pcm16ToFloat_sample_def)
    qed
  next
    case False
    define p where "p = \<lfloor>x * 32767\<rfloor>"
    have sp: "sint (floatToPCM16_sample x) = p"
      using False x by (auto simp: floatToPCM16_sample_sint p_def)
    have p1: "real_of_int p \<le> x * 32767" "x * 32767 < real_of_int p + 1"
      unfolding p_def by linarith+
    have pge: "0 \<le> p"
      unfolding p_def using False by simp
    have ple: "p \<le> 32767"
      unfolding p_def using x by (simp add: floor_le_iff)
    define q where "q = real_of_int p / 32767"
    have q1: "0 \<le> x - q" "x - q < 1 / 32767"
      using p1 by (simp_all add: q_def field_simps)
    show ?thesis
    proof (cases "p = 0")
      case True
      with q1 have "\<bar>x\<bar> < 1 / 32767"
        by (simp add: q_def)
      with False sp True zero e0 show ?thesis
        by (simp add: pcm16ToFloat_sample_def)
    next
      case pos: False
      with pge have "1 \<le> p"
        by simp
      then have "1 \<le> real_of_int p"
        by linarith
      then have "1 / 32768 \<le> \<bar>q\<bar>"
        by (simp add: q_def field_simps)
      moreover have "\<bar>q\<bar> \<le> 1"
        using ple pge by (simp add: q_def field_simps)
      ultimately have "\<bar>fround q - q\<bar> \<le> e"
        by (rule small)
      with q1 have "\<bar>fround q - x\<bar> < 1 / 32767 + e"
        by linarith
      with False pge sp show ?thesis
        by (simp add: pcm16ToFloat_sample_def q_def)
    qed
  qed
qed

text \<open>
  C5. Let the samples of a block lie in \<open>[-1, 1]\<close>, and let the store into the
  \<open>Float32Array\<close> keep zero and round the other quotients, which lie between \<open>1/32768\<close> and
  \<open>1\<close> in absolute value, with a relative error of at most \<open>e\<close> (about \<open>2^-24\<close> for
  float32). The
  buffer the capture hands out is read back by the playback as the same 16-bit samples, and
  decoding them gives as many samples as were encoded, each within one quantization step of
  the original, up to the rounding: the step is \<open>1/32768\<close> for a negative sample and
  \<open>1/32767\<close> for a non-negative one.
\<close>

theorem pcm16_round_trip:
  assumes "\<And>y. 1 / 32768 \<le> \<bar>y\<bar> \<Longrightarrow> \<bar>y\<bar> \<le> 1 \<Longrightarrow> \<bar>fround y - y\<bar> \<le> e * \<bar>y\<bar>"
    and "fround 0 = 0"
    and "\<forall>x\<in>set inputData. - 1 \<le> x \<and> x \<le> 1"
  shows "Int16Array (int16_buffer (floatToPCM16 inputData)) = Inr (floatToPCM16 inputData)
     \<and> length (pcm16ToFloat fround (floatToPCM16 inputData)) = length inputData
     \<and> (\<forall>i<length inputData.
          \<bar>pcm16ToFloat fround (floatToPCM16 inputData) ! i - inputData ! i\<bar>
            < (if inputData ! i < 0 then 1 / 32768 else 1 / 32767) + e)"
proof (intro conjI allI impI)
  show "Int16Array (int16_buffer (floatToPCM16 inputData)) = Inr (floatToPCM16 inputData)"
    by (rule Int16Array_int16_buffer)
  show "length (pcm16ToFloat fround (floatToPCM16 inputData)) = length inputData"
    by (simp add: pcm16ToFloat_def floatToPCM16_def)
next
  fix i
  assume i: "i < length inputData"
  then have "inputData ! i \<in> set inputData"
    by simp
  with assms(3) have "- 1 \<le> inputData ! i" "inputData ! i \<le> 1"
    by auto
  from round_trip_sample [of fround e, OF assms(1,2) this]
  show "\<bar>pcm16ToFloat fround (floatToPCM16 inputData) ! i - inputData ! i\<bar>
          < (if inputData ! i < 0 then 1 / 32768 else 1 / 32767) + e"
    using i by (simp add: pcm16ToFloat_def floatToPCM16_def)
qed

text \<open>
  The round trip on the block \<open>[1/2, -1/3]\<close> with an exact store: the samples \<open>16383\<close> and
  \<open>-10922\<close> come back as \<open>16383/32767\<close> and \<open>-10922/32768\<close>.
\<close>

theorem pcm16_round_trip_witness:
  "(- 1 \<le> (1 / 2 :: real) \<and> (1 / 2 :: real) \<le> 1 \<and> - 1 \<le> (- 1 / 3 :: real) \<and> (- 1 / 3 :: real) \<le> 1)
   \<and> map sint (floatToPCM16 [1 / 2, - 1 / 3]) = [16383, - 10922]
   \<and> pcm16ToFloat (\<lambda>y. y) (floatToPCM16 [1 / 2, - 1 / 3]) = [16383 / 32767, - 10922 / 32768]
   \<and> \<bar>pcm16ToFloat (\<lambda>y. y) (floatToPCM16 [1 / 2, - 1 / 3]) ! 0 - 1 / 2\<bar> < 1 / 32767 + 0
   \<and> \<bar>pcm16ToFloat (\<lambda>y. y) (floatToPCM16 [1 / 2, - 1 / 3]) ! 1 - (- 1 / 3)\<bar> < 1 / 32768 + 0"
proof -
  have rnd: "\<And>y :: real. 1 / 32768 \<le> \<bar>y\<bar> \<Longrightarrow> \<bar>y\<bar> \<le> 1 \<Longrightarrow> \<bar>(\<lambda>y. y) y - y\<bar> \<le> 0 * \<bar>y\<bar>"
    by simp
  have zero: "(\<lambda>y :: real. y) 0 = 0"
    by simp
  have range: "\<forall>x\<in>set [1 / 2, - 1 / 3 :: real]. - 1 \<le> x \<and> x \<le> 1"
    by simp
  note rt = pcm16_round_trip [of "\<lambda>y. y" 0 "[1 / 2, - 1 / 3]", OF rnd zero range]
  then have each: "\<bar>pcm16ToFloat (\<lambda>y. y) (floatToPCM16 [1 / 2, - 1 / 3]) ! i - [1 / 2, - 1 / 3] ! i\<bar>
      < (if [1 / 2, - 1 / 3 :: real] ! i < 0 then 1 / 32768 else 1 / 32767) + 0" if "i < 2" for i
    using that by simp
  from each [of 0] have "\<bar>pcm16ToFloat (\<lambda>y. y) (floatToPCM16 [1 / 2, - 1 / 3]) ! 0 - 1 / 2\<bar> < 1 / 32767 + 0"
    by simp
  moreover from each [of 1] have "\<bar>pcm16ToFloat (\<lambda>y. y) (floatToPCM16 [1 / 2, - 1 / 3]) ! 1 - (- 1 / 3)\<bar> < 1 / 32768 + 0"
    by simp
  moreover have samples: "map sint (floatToPCM16 [1 / 2, - 1 / 3]) = [16383, - 10922]"
    by (simp add: floatToPCM16_def floatToPCM16_sample_sint)
  moreover have "pcm16ToFloat (\<lambda>y. y) (floatToPCM16 [1 / 2, - 1 / 3]) = [16383 / 32767, - 10922 / 32768]"
    using samples by (simp add: pcm16ToFloat_def pcm16ToFloat_sample_def floatToPCM16_def)
  ultimately show ?thesis
    by simp
qed

section \<open>Voice activity: one call per change\<close>

lemma onaudioprocess_fields:
  "voiceActivityThreshold (snd (onaudioprocess f s)) = voiceActivityThreshold s"
  "onVoiceActivityCallback (snd (onaudioprocess f s)) = onVoiceActivityCallback s"
  by (simp_all add: onaudioprocess_def Let_def)

lemma isActive_onaudioprocess: "isActive (snd (onaudioprocess f s)) = isActive s"
  by (rule ext) (simp add: isActive_def onaudioprocess_fields)

lemma wasActive_onaudioprocess:
  "onVoiceActivityCallback s \<Longrightarrow> wasActive (snd (onaudioprocess f s)) = isActive s f"
  by (simp add: onaudioprocess_def Let_def)

lemma calls_onaudioprocess:
  "onVoiceActivityCallback s \<Longrightarrow>
   voiceActivityCalls (fst (onaudioprocess f s)) =
     (if isActive s f \<noteq> wasActive s then [isActive s f] else [])"
  by (simp add: onaudioprocess_def Let_def)

lemma voiceActivityCalls_append:
  "voiceActivityCalls (xs @ ys) = voiceActivityCalls xs @ voiceActivityCalls ys"
  by (induction xs rule: voiceActivityCalls.induct) simp_all

lemma calls_capture:
  "onVoiceActivityCallback s \<Longrightarrow>
   voiceActivityCalls (fst (capture frames s)) = edges (wasActive s) (map (isActive s) frames)"
proof (induction frames arbitrary: s)
  case Nil
  then show ?case by simp
next
  case (Cons f frames)
  obtain evs s1 where step: "onaudioprocess f s = (evs, s1)"
    by (cases "onaudioprocess f s")
  obtain evs' s2 where rest: "capture frames s1 = (evs', s2)"
    by (cases "capture frames s1")
  have s1: "s1 = snd (onaudioprocess f s)" "evs = fst (onaudioprocess f s)"
    using step by simp_all
  have cb: "onVoiceActivityCallback s1"
    using Cons.prems by (simp add: s1 onaudioprocess_fields)
  have "voiceActivityCalls evs' = edges (wasActive s1) (map (isActive s1) frames)"
    using Cons.IH [OF cb] rest by simp
  moreover have "wasActive s1 = isActive s f"
    using Cons.prems by (simp add: s1 wasActive_onaudioprocess)
  moreover have "isActive s1 = isActive s"
    by (simp add: s1 isActive_onaudioprocess)
  moreover have "voiceActivityCalls evs = (if isActive s f \<noteq> wasActive s then [isActive s f] else [])"
    using Cons.prems by (simp add: s1 calls_onaudioprocess)
  ultimately show ?case
    using step rest by (simp add: voiceActivityCalls_append)
qed

lemma length_edges: "length (edges prev bs) = changes prev bs"
  by (induction bs arbitrary: prev) simp_all

lemma edges_all_True: "\<forall>b\<in>set bs. b \<Longrightarrow> edges True bs = []"
  by (induction bs) auto

lemma edges_sustained: "bs \<noteq> [] \<Longrightarrow> \<forall>b\<in>set bs. b \<Longrightarrow> edges False bs = [True]"
  by (cases bs) (auto simp: edges_all_True)

lemma edges_alternating: "alternating (\<not> prev) bs \<Longrightarrow> edges prev bs = bs"
  by (induction bs arbitrary: prev) auto

text \<open>
  C6. With a voice-activity callback registered and the detector inactive at the start:
  \<^item> a sequence of at least one block, each with an RMS above the threshold, makes exactly one
    call of the callback, with \<open>True\<close>, whatever its length;
  \<^item> in general the number of calls is the number of times the classification of the blocks
    changes, the first block being compared with the inactive start;
  \<^item> so \<open>N\<close> blocks that alternate above, below, above, ... make \<open>N\<close> calls, one per block and
    with the classification of that block.
\<close>

theorem voice_activity_edge_triggered:
  assumes "onVoiceActivityCallback s" and "\<not> wasActive s"
  shows "(frames \<noteq> [] \<and> (\<forall>f\<in>set frames. f \<noteq> [] \<and> rms f > voiceActivityThreshold s)
            \<longrightarrow> voiceActivityCalls (fst (capture frames s)) = [True])
     \<and> length (voiceActivityCalls (fst (capture frames s))) = changes False (map (isActive s) frames)
     \<and> (alternating True (map (isActive s) frames)
            \<longrightarrow> voiceActivityCalls (fst (capture frames s)) = map (isActive s) frames
              \<and> length (voiceActivityCalls (fst (capture frames s))) = length frames)"
proof -
  have eq: "voiceActivityCalls (fst (capture frames s)) = edges False (map (isActive s) frames)"
    using assms by (simp add: calls_capture)
  have "frames \<noteq> [] \<and> (\<forall>f\<in>set frames. f \<noteq> [] \<and> rms f > voiceActivityThreshold s)
            \<longrightarrow> edges False (map (isActive s) frames) = [True]"
    by (auto intro!: edges_sustained simp: isActive_def)
  moreover have "length (edges False (map (isActive s) frames)) = changes False (map (isActive s) frames)"
    by (rule length_edges)
  moreover have "alternating True (map (isActive s) frames)
            \<longrightarrow> edges False (map (isActive s) frames) = map (isActive s) frames"
    using edges_alternating [of False] by simp
  ultimately show ?thesis
    unfolding eq by auto
qed

text \<open>
  Capture started with a voice-activity callback at the default threshold \<open>0.02\<close>. Three
  blocks of full-scale samples make one call; the blocks loud, silent, loud make three.
\<close>

theorem voice_activity_edge_triggered_witness:
  "onVoiceActivityCallback (snd (startAudioCapture True (LiveKitService_new\<lparr>localAudioTrack := Some True\<rparr>)))
   \<and> \<not> wasActive (snd (startAudioCapture True (LiveKitService_new\<lparr>localAudioTrack := Some True\<rparr>)))
   \<and> rms [1, - 1] > 0.02
   \<and> voiceActivityCalls (fst (capture [[1, - 1], [1, - 1], [1, - 1]]
        (snd (startAudioCapture True (LiveKitService_new\<lparr>localAudioTrack := Some True\<rparr>))))) = [True]
   \<and> voiceActivityCalls (fst (capture [[1, - 1], [0, 0], [1, - 1]]
        (snd (startAudioCapture True (LiveKitService_new\<lparr>localAudioTrack := Some True\<rparr>)))))
      = [True, False, True]"
proof -
  let ?s = "snd (startAudioCapture True (LiveKitService_new\<lparr>localAudioTrack := Some True\<rparr>))"
  have s: "onVoiceActivityCallback ?s" "\<not> wasActive ?s" "voiceActivityThreshold ?s = 0.02"
    by (simp_all add: startAudioCapture_def LiveKitService_new_def Let_def)
  have loud: "rms [1, - 1] > 0.02"
    by (simp add: rms_def)
  have quiet: "\<not> rms [0, 0] > 0.02"
    by (simp add: rms_def)
  have sustained: "[[1, - 1], [1, - 1], [1, - 1 :: real]] \<noteq> []
      \<and> (\<forall>f\<in>set [[1, - 1], [1, - 1], [1, - 1 :: real]]. f \<noteq> [] \<and> rms f > voiceActivityThreshold ?s)"
    using loud s(3) by simp
  have alt: "alternating True (map (isActive ?s) [[1, - 1], [0, 0], [1, - 1]])"
    using loud quiet s(3) by (simp add: isActive_def)
  have "voiceActivityCalls (fst (capture [[1, - 1], [1, - 1], [1, - 1]] ?s)) = [True]"
    using voice_activity_edge_triggered [OF s(1,2), of "[[1, - 1], [1, - 1], [1, - 1]]"] sustained
    by blast
  moreover have "voiceActivityCalls (fst (capture [[1, - 1], [0, 0], [1, - 1]] ?s))
      = map (isActive ?s) [[1, - 1], [0, 0], [1, - 1]]"
    using voice_activity_edge_triggered [OF s(1,2), of "[[1, - 1], [0, 0], [1, - 1]]"] alt
    by blast
  moreover have "map (isActive ?s) [[1, - 1], [0, 0], [1, - 1]] = [True, False, True]"
    using loud quiet s(3) by (simp add: isActive_def)
  ultimately show ?thesis
    using s(1,2) loud by simp
qed

section \<open>Playback: scheduling and interruption\<close>

lemma playAudio_scheduled:
  assumes "Int16Array audioData = Inr pcm16" and "pcm16 \<noteq> []"
  shows "playAudio fround now audioData s =
     (let watermark = (if playbackAudioContext s then nextStartTime s else now);
          startTime = max watermark now;
          duration = real (length pcm16) / 24000
      in (None,
          s\<lparr>playbackAudioContext := True,
            playbackAnalyser := (if playbackAudioContext s then playbackAnalyser s else True),
            nextStartTime := startTime + duration,
            scheduledSources := scheduledSources s @ [length (nodes s)],
            nodes := nodes s @
              [\<lparr>channelData = pcm16ToFloat fround pcm16, startedAt = startTime, stopCalled = False\<rparr>]\<rparr>))"
  using assms by (simp add: playAudio_def Let_def pcm16ToFloat_def)

lemma playAudio_refused:
  assumes "Int16Array audioData = Inl e \<or> Int16Array audioData = Inr []"
  shows "snd (playAudio fround now audioData s) =
     (if playbackAudioContext s then s
      else s\<lparr>playbackAudioContext := True, nextStartTime := now, playbackAnalyser := True\<rparr>)"
  using assms by (auto simp: playAudio_def Let_def pcm16ToFloat_def)

lemma playAudioAll_starts:
  assumes "playbackAudioContext s" and "\<forall>(now, pcm16)\<in>set frames. pcm16 \<noteq> []"
  shows "map startedAt (nodes (playAudioAll fround (map (\<lambda>(now, pcm16). (now, int16_buffer pcm16)) frames) s)) =
         map startedAt (nodes s) @
           scheduled_starts (nextStartTime s) (map (\<lambda>(now, pcm16). (now, length pcm16)) frames)"
  using assms
proof (induction frames arbitrary: s)
  case Nil
  then show ?case by simp
next
  case (Cons frame frames)
  obtain now pcm16 where frame: "frame = (now, pcm16)"
    by (cases frame)
  with Cons.prems have ne: "pcm16 \<noteq> []"
    by simp
  let ?s1 = "snd (playAudio fround now (int16_buffer pcm16) s)"
  have s1: "playbackAudioContext ?s1"
    "nextStartTime ?s1 = max (nextStartTime s) now + real (length pcm16) / 24000"
    "map startedAt (nodes ?s1) = map startedAt (nodes s) @ [max (nextStartTime s) now]"
    using Cons.prems(1) ne
    by (simp_all add: playAudio_scheduled [OF Int16Array_int16_buffer] Let_def)
  have "\<forall>(now, pcm16)\<in>set frames. pcm16 \<noteq> []"
    using Cons.prems(2) by simp
  from Cons.IH [OF s1(1) this] show ?case
    by (simp add: frame s1)
qed

text \<open>
  C7. A frame of at least one sample is scheduled at the later of the clock and the watermark
  (a first frame, played when there is no playback context yet, sets the watermark to the
  clock before). Its duration is its number of samples divided by the sample rate 24000, and
  the watermark moves to its start plus its duration. So a sequence of frames played with no
  interruption starts as back-to-back scheduling says, and three frames of durations
  \<open>d1\<close>, \<open>d2\<close>, \<open>d3\<close> played on a new service with the clock at \<open>0\<close> start at \<open>0\<close>, \<open>d1\<close>
  and \<open>d1 + d2\<close>, each ending where the next one starts.
\<close>

theorem playAudio_schedules_back_to_back:
  "(Int16Array audioData = Inr pcm16 \<and> pcm16 \<noteq> [] \<longrightarrow>
      fst (playAudio fround now audioData s) = None
      \<and> nodes (snd (playAudio fround now audioData s)) =
          nodes s @
            [\<lparr>channelData = pcm16ToFloat fround pcm16,
              startedAt = max (if playbackAudioContext s then nextStartTime s else now) now,
              stopCalled = False\<rparr>]
      \<and> scheduledSources (snd (playAudio fround now audioData s)) =
          scheduledSources s @ [length (nodes s)]
      \<and> nextStartTime (snd (playAudio fround now audioData s)) =
          max (if playbackAudioContext s then nextStartTime s else now) now
            + real (length pcm16) / 24000)
   \<and> (playbackAudioContext s \<and> (\<forall>(now, pcm16)\<in>set frames. pcm16 \<noteq> []) \<longrightarrow>
        map startedAt (nodes (playAudioAll fround (map (\<lambda>(now, pcm16). (now, int16_buffer pcm16)) frames) s)) =
          map startedAt (nodes s) @
            scheduled_starts (nextStartTime s) (map (\<lambda>(now, pcm16). (now, length pcm16)) frames))
   \<and> (pcm1 \<noteq> [] \<and> pcm2 \<noteq> [] \<and> pcm3 \<noteq> [] \<longrightarrow>
        map startedAt (nodes (playAudioAll fround
            [(0, int16_buffer pcm1), (0, int16_buffer pcm2), (0, int16_buffer pcm3)] LiveKitService_new))
          = [0, real (length pcm1) / 24000, real (length pcm1) / 24000 + real (length pcm2) / 24000]
        \<and> map endTime (nodes (playAudioAll fround
            [(0, int16_buffer pcm1), (0, int16_buffer pcm2), (0, int16_buffer pcm3)] LiveKitService_new))
          = [real (length pcm1) / 24000, real (length pcm1) / 24000 + real (length pcm2) / 24000,
             real (length pcm1) / 24000 + real (length pcm2) / 24000 + real (length pcm3) / 24000])"
proof (intro conjI impI)
  assume "Int16Array audioData = Inr pcm16 \<and> pcm16 \<noteq> []"
  then have eq: "playAudio fround now audioData s =
     (None,
      s\<lparr>playbackAudioContext := True,
        playbackAnalyser := (if playbackAudioContext s then playbackAnalyser s else True),
        nextStartTime := max (if playbackAudioContext s then nextStartTime s else now) now
            + real (length pcm16) / 24000,
        scheduledSources := scheduledSources s @ [length (nodes s)],
        nodes := nodes s @
          [\<lparr>channelData = pcm16ToFloat fround pcm16,
            startedAt = max (if playbackAudioContext s then nextStartTime s else now) now,
            stopCalled = False\<rparr>]\<rparr>)"
    by (simp add: playAudio_scheduled Let_def)
  show "fst (playAudio fround now audioData s) = None"
    by (simp add: eq)
  show "nodes (snd (playAudio fround now audioData s)) =
          nodes s @
            [\<lparr>channelData = pcm16ToFloat fround pcm16,
              startedAt = max (if playbackAudioContext s then nextStartTime s else now) now,
              stopCalled = False\<rparr>]"
    by (simp add: eq)
  show "scheduledSources (snd (playAudio fround now audioData s)) =
          scheduledSources s @ [length (nodes s)]"
    by (simp add: eq)
  show "nextStartTime (snd (playAudio fround now audioData s)) =
          max (if playbackAudioContext s then nextStartTime s else now) now
            + real (length pcm16) / 24000"
    by (simp add: eq)
next
  assume "playbackAudioContext s \<and> (\<forall>(now, pcm16)\<in>set frames. pcm16 \<noteq> [])"
  then show "map startedAt (nodes (playAudioAll fround (map (\<lambda>(now, pcm16). (now, int16_buffer pcm16)) frames) s)) =
          map startedAt (nodes s) @
            scheduled_starts (nextStartTime s) (map (\<lambda>(now, pcm16). (now, length pcm16)) frames)"
    by (simp add: playAudioAll_starts)
next
  assume ne: "pcm1 \<noteq> [] \<and> pcm2 \<noteq> [] \<and> pcm3 \<noteq> []"
  then show "map startedAt (nodes (playAudioAll fround
            [(0, int16_buffer pcm1), (0, int16_buffer pcm2), (0, int16_buffer pcm3)] LiveKitService_new))
          = [0, real (length pcm1) / 24000, real (length pcm1) / 24000 + real (length pcm2) / 24000]"
    by (simp add: playAudio_scheduled [OF Int16Array_int16_buffer] Let_def LiveKitService_new_def)
  from ne show "map endTime (nodes (playAudioAll fround
            [(0, int16_buffer pcm1), (0, int16_buffer pcm2), (0, int16_buffer pcm3)] LiveKitService_new))
          = [real (length pcm1) / 24000, real (length pcm1) / 24000 + real (length pcm2) / 24000,
             real (length pcm1) / 24000 + real (length pcm2) / 24000 + real (length pcm3) / 24000]"
    by (simp add: playAudio_scheduled [OF Int16Array_int16_buffer] Let_def LiveKitService_new_def
        endTime_def pcm16ToFloat_def)
qed

text \<open>
  A frame of two samples played at clock \<open>5\<close> while the watermark is \<open>7\<close> starts at \<open>7\<close>
  and moves the watermark by \<open>2/24000\<close>; two frames played at clocks \<open>5\<close> and \<open>9\<close> start
  at \<open>7\<close> and \<open>9\<close>; and frames of 1 s, 0.5 s and 0.5 s played on a new service with the clock
  at \<open>0\<close> start at \<open>0\<close>, \<open>1\<close> and \<open>1.5\<close> and end at \<open>1\<close>, \<open>1.5\<close> and \<open>2\<close>.
\<close>

theorem playAudio_schedules_back_to_back_witness:
  "Int16Array (int16_buffer [1, 2]) = Inr [1, 2]
   \<and> map startedAt (nodes (snd (playAudio (\<lambda>y. y) 5 (int16_buffer [1, 2])
        (LiveKitService_new\<lparr>playbackAudioContext := True, nextStartTime := 7\<rparr>)))) = [7]
   \<and> nextStartTime (snd (playAudio (\<lambda>y. y) 5 (int16_buffer [1, 2])
        (LiveKitService_new\<lparr>playbackAudioContext := True, nextStartTime := 7\<rparr>))) = 7 + 2 / 24000
   \<and> map startedAt (nodes (playAudioAll (\<lambda>y. y) [(5, int16_buffer [1, 2]), (9, int16_buffer [3])]
        (LiveKitService_new\<lparr>playbackAudioContext := True, nextStartTime := 7\<rparr>))) = [7, 9]
   \<and> map startedAt (nodes (playAudioAll (\<lambda>y. y)
        [(0, int16_buffer (replicate 24000 0)), (0, int16_buffer (replicate 12000 0)),
         (0, int16_buffer (replicate 12000 0))] LiveKitService_new)) = [0, 1, 3 / 2]
   \<and> map endTime (nodes (playAudioAll (\<lambda>y. y)
        [(0, int16_buffer (replicate 24000 0)), (0, int16_buffer (replicate 12000 0)),
         (0, int16_buffer (replicate 12000 0))] LiveKitService_new)) = [1, 3 / 2, 2]"
proof -
  let ?s = "LiveKitService_new\<lparr>playbackAudioContext := True, nextStartTime := 7\<rparr>"
  have view: "Int16Array (int16_buffer [1, 2]) = Inr [1, 2]"
    by (rule Int16Array_int16_buffer)
  note inst = playAudio_schedules_back_to_back
      [where audioData = "int16_buffer [1, 2]" and ?pcm16.0 = "[1, 2]" and fround = "\<lambda>y. y" and now = 5
        and s = ?s and frames = "[(5, [1, 2]), (9, [3])]"
        and ?pcm1.0 = "replicate 24000 0" and ?pcm2.0 = "replicate 12000 0"
        and ?pcm3.0 = "replicate 12000 0"]
  have ctx: "playbackAudioContext ?s" "nextStartTime ?s = 7" "nodes ?s = []"
    by (simp_all add: LiveKitService_new_def)
  have one: "map startedAt (nodes (snd (playAudio (\<lambda>y. y) 5 (int16_buffer [1, 2]) ?s))) = [7]"
    "nextStartTime (snd (playAudio (\<lambda>y. y) 5 (int16_buffer [1, 2]) ?s)) = 7 + 2 / 24000"
    using inst view ctx by simp_all
  have two: "map startedAt (nodes (playAudioAll (\<lambda>y. y) [(5, int16_buffer [1, 2]), (9, int16_buffer [3])] ?s))
      = [7, 9]"
    using inst ctx by simp
  have three: "map startedAt (nodes (playAudioAll (\<lambda>y. y)
        [(0, int16_buffer (replicate 24000 0)), (0, int16_buffer (replicate 12000 0)),
         (0, int16_buffer (replicate 12000 0))] LiveKitService_new)) = [0, 1, 3 / 2]"
    "map endTime (nodes (playAudioAll (\<lambda>y. y)
        [(0, int16_buffer (replicate 24000 0)), (0, int16_buffer (replicate 12000 0)),
         (0, int16_buffer (replicate 12000 0))] LiveKitService_new)) = [1, 3 / 2, 2]"
    using inst by simp_all
  from view one two three show ?thesis
    by blast
qed

lemma stop_length: "length (stop i ns) = length ns"
  by (simp add: stop_def)

lemma foldl_stop_length: "length (foldl (\<lambda>ns source. stop source ns) ns srcs) = length ns"
  by (induction srcs arbitrary: ns) (simp_all add: stop_length)

lemma stopCalled_stop:
  "j < length ns \<Longrightarrow> stopCalled (stop i ns ! j) = (stopCalled (ns ! j) \<or> i = j)"
  by (auto simp: stop_def nth_list_update)

lemma stopCalled_foldl_stop:
  "j < length ns \<Longrightarrow>
   stopCalled (foldl (\<lambda>ns source. stop source ns) ns srcs ! j) = (stopCalled (ns ! j) \<or> j \<in> set srcs)"
  by (induction srcs arbitrary: ns) (auto simp: stop_length stopCalled_stop)

lemma interruptAudio_idle:
  "scheduledSources s = [] \<Longrightarrow>
   interruptAudio now s = (if playbackAudioContext s then s\<lparr>nextStartTime := now\<rparr> else s)"
  by (simp add: interruptAudio_def Let_def)

text \<open>
  In every playback state, when there is a context, the watermark is not ahead of the clock
  unless a source that is scheduled and not stopped ends at it.
\<close>

lemma watermark_invariant:
  assumes "playback_state fround t s"
  shows "playbackAudioContext s \<longrightarrow> nextStartTime s \<le> t \<or> pending s"
  using assms
proof (induction rule: playback_state.induct)
  case (initial s t)
  then show ?case by simp
next
  case (clock t s t')
  then show ?case by auto
next
  case (play t s audioData)
  show ?case
  proof (cases "Int16Array audioData")
    case (Inl e)
    with play.IH show ?thesis
      by (auto simp: playAudio_refused pending_def)
  next
    case (Inr pcm16)
    show ?thesis
    proof (cases "pcm16 = []")
      case True
      with Inr play.IH show ?thesis
        by (auto simp: playAudio_refused pending_def)
    next
      case False
      have "pending (snd (playAudio fround t audioData s))"
        using Inr False
        by (simp add: playAudio_scheduled Let_def pending_def endTime_def pcm16ToFloat_def)
      then show ?thesis by simp
    qed
  qed
next
  case (interrupt t s)
  then show ?case by (simp add: interruptAudio_def Let_def)
next
  case (ended t s source)
  show ?case
  proof (intro impI)
    assume "playbackAudioContext (onended source s)"
    then have ctx: "playbackAudioContext s"
      by (simp add: onended_def)
    with ended.IH consider "nextStartTime s \<le> t" | "pending s"
      by blast
    then show "nextStartTime (onended source s) \<le> t \<or> pending (onended source s)"
    proof cases
      case 1
      then show ?thesis by (simp add: onended_def)
    next
      case 2
      then obtain i where i: "i \<in> set (scheduledSources s)" "i < length (nodes s)"
        "\<not> stopCalled (nodes s ! i)" "endTime (nodes s ! i) = nextStartTime s"
        by (auto simp: pending_def)
      show ?thesis
      proof (cases "i = source")
        case True
        with i ended.hyps have "nextStartTime s \<le> t" by auto
        then show ?thesis by (simp add: onended_def)
      next
        case False
        with i have "i \<in> set (remove1 source (scheduledSources s))" by simp
        with i have "pending (onended source s)"
          by (auto simp: pending_def onended_def)
        then show ?thesis by simp
      qed
    qed
  qed
qed

lemma idle_watermark:
  "playback_state fround t s \<Longrightarrow> playbackAudioContext s \<Longrightarrow> scheduledSources s = [] \<Longrightarrow>
   nextStartTime s \<le> t"
  using watermark_invariant [of fround t s] by (auto simp: pending_def)

lemma interruptAudio_idle_unobservable:
  assumes "playback_state fround now s" and "scheduledSources s = []" and "now \<le> now'"
    and "Int16Array audioData = Inr pcm16" and "pcm16 \<noteq> []"
  shows "playAudio fround now' audioData (interruptAudio now s) = playAudio fround now' audioData s"
proof (cases "playbackAudioContext s")
  case True
  with assms have "nextStartTime s \<le> now"
    by (simp add: idle_watermark)
  with assms True show ?thesis
    by (auto simp: playAudio_scheduled Let_def interruptAudio_idle)
next
  case False
  with assms(2) show ?thesis
    by (simp add: interruptAudio_idle)
qed

text \<open>
  C8. After \<open>interruptAudio\<close>, called when the clock reads \<open>now\<close>:
  \<^item> \<open>stop\<close> has been called on every source that was scheduled;
  \<^item> no source is scheduled;
  \<^item> the watermark is \<open>now\<close> (when there is a playback context, whose clock it is);
  \<^item> a frame played afterwards, at a clock reading \<open>now'\<close> that is not before \<open>now\<close>, starts
    at \<open>now'\<close> whatever the state before the interruption was, and it is then the only
    scheduled source;
  \<^item> with nothing scheduled the call stops nothing and changes no field except the
    watermark, which it sets to the clock; it is idempotent; and in every playback state it
    is without effect on what is played later: a frame played afterwards leaves the service
    in the state it would be in without the call.
\<close>

theorem interruptAudio_stops_and_resets:
  "(\<forall>source\<in>set (scheduledSources s). source < length (nodes s)
        \<longrightarrow> stopCalled (nodes (interruptAudio now s) ! source))
   \<and> scheduledSources (interruptAudio now s) = []
   \<and> (playbackAudioContext s \<longrightarrow> nextStartTime (interruptAudio now s) = now)
   \<and> (now \<le> now' \<and> Int16Array audioData = Inr pcm16 \<and> pcm16 \<noteq> [] \<longrightarrow>
        startedAt (last (nodes (snd (playAudio fround now' audioData (interruptAudio now s))))) = now'
        \<and> scheduledSources (snd (playAudio fround now' audioData (interruptAudio now s)))
            = [length (nodes s)])
   \<and> (scheduledSources s = [] \<longrightarrow>
        interruptAudio now s = (if playbackAudioContext s then s\<lparr>nextStartTime := now\<rparr> else s))
   \<and> interruptAudio now (interruptAudio now s) = interruptAudio now s
   \<and> (playback_state fround now s \<and> scheduledSources s = [] \<and> now \<le> now'
         \<and> Int16Array audioData = Inr pcm16 \<and> pcm16 \<noteq> [] \<longrightarrow>
        playAudio fround now' audioData (interruptAudio now s) = playAudio fround now' audioData s)"
proof (intro conjI)
  show "\<forall>source\<in>set (scheduledSources s). source < length (nodes s)
        \<longrightarrow> stopCalled (nodes (interruptAudio now s) ! source)"
    by (simp add: interruptAudio_def Let_def stopCalled_foldl_stop)
  show "scheduledSources (interruptAudio now s) = []"
    by (simp add: interruptAudio_def Let_def)
  show "playbackAudioContext s \<longrightarrow> nextStartTime (interruptAudio now s) = now"
    by (simp add: interruptAudio_def Let_def)
  show "now \<le> now' \<and> Int16Array audioData = Inr pcm16 \<and> pcm16 \<noteq> [] \<longrightarrow>
        startedAt (last (nodes (snd (playAudio fround now' audioData (interruptAudio now s))))) = now'
        \<and> scheduledSources (snd (playAudio fround now' audioData (interruptAudio now s)))
            = [length (nodes s)]"
    by (auto simp: playAudio_scheduled Let_def interruptAudio_def foldl_stop_length)
  show "scheduledSources s = [] \<longrightarrow>
        interruptAudio now s = (if playbackAudioContext s then s\<lparr>nextStartTime := now\<rparr> else s)"
    by (simp add: interruptAudio_idle)
  show "interruptAudio now (interruptAudio now s) = interruptAudio now s"
    by (simp add: interruptAudio_def Let_def)
  show "playback_state fround now s \<and> scheduledSources s = [] \<and> now \<le> now'
         \<and> Int16Array audioData = Inr pcm16 \<and> pcm16 \<noteq> [] \<longrightarrow>
        playAudio fround now' audioData (interruptAudio now s) = playAudio fround now' audioData s"
    by (auto simp: interruptAudio_idle_unobservable)
qed

text \<open>
  One frame of two samples is played on a new service at clock \<open>0\<close>, which moves the watermark
  to \<open>2/24000\<close>. An interruption at clock \<open>0\<close> stops the source, empties the list and puts
  the watermark back to \<open>0\<close>, and the next frame starts at \<open>0\<close>. When instead the source has
  ended and the clock reads \<open>1\<close>, an interruption changes nothing for the next frame.
\<close>

theorem interruptAudio_stops_and_resets_witness:
  "scheduledSources (snd (playAudio (\<lambda>y. y) 0 (int16_buffer [1, 2]) LiveKitService_new)) = [0]
   \<and> nextStartTime (snd (playAudio (\<lambda>y. y) 0 (int16_buffer [1, 2]) LiveKitService_new)) = 2 / 24000
   \<and> stopCalled (nodes (interruptAudio 0
         (snd (playAudio (\<lambda>y. y) 0 (int16_buffer [1, 2]) LiveKitService_new))) ! 0)
   \<and> scheduledSources (interruptAudio 0
         (snd (playAudio (\<lambda>y. y) 0 (int16_buffer [1, 2]) LiveKitService_new))) = []
   \<and> nextStartTime (interruptAudio 0
         (snd (playAudio (\<lambda>y. y) 0 (int16_buffer [1, 2]) LiveKitService_new))) = 0
   \<and> startedAt (last (nodes (snd (playAudio (\<lambda>y. y) 0 (int16_buffer [3])
         (interruptAudio 0 (snd (playAudio (\<lambda>y. y) 0 (int16_buffer [1, 2]) LiveKitService_new))))))) = 0
   \<and> playback_state (\<lambda>y. y) 1
         (onended 0 (snd (playAudio (\<lambda>y. y) 0 (int16_buffer [1, 2]) LiveKitService_new)))
   \<and> scheduledSources
         (onended 0 (snd (playAudio (\<lambda>y. y) 0 (int16_buffer [1, 2]) LiveKitService_new))) = []
   \<and> playAudio (\<lambda>y. y) 1 (int16_buffer [3])
         (interruptAudio 1 (onended 0 (snd (playAudio (\<lambda>y. y) 0 (int16_buffer [1, 2]) LiveKitService_new))))
       = playAudio (\<lambda>y. y) 1 (int16_buffer [3])
         (onended 0 (snd (playAudio (\<lambda>y. y) 0 (int16_buffer [1, 2]) LiveKitService_new)))"
proof -
  let ?s1 = "snd (playAudio (\<lambda>y. y) 0 (int16_buffer [1, 2]) LiveKitService_new)"
  let ?idle = "onended 0 ?s1"
  have s1: "scheduledSources ?s1 = [0]" "nextStartTime ?s1 = 2 / 24000" "length (nodes ?s1) = 1"
    "playbackAudioContext ?s1" "endTime (nodes ?s1 ! 0) = 2 / 24000"
    by (simp_all add: playAudio_scheduled [OF Int16Array_int16_buffer] Let_def LiveKitService_new_def
        endTime_def pcm16ToFloat_def)
  have view: "Int16Array (int16_buffer [3]) = Inr [3]"
    by (rule Int16Array_int16_buffer)
  note busy = interruptAudio_stops_and_resets
      [where s = ?s1 and now = 0 and now' = 0 and audioData = "int16_buffer [3]" and ?pcm16.0 = "[3]"
        and fround = "\<lambda>y. y"]
  have a: "stopCalled (nodes (interruptAudio 0 ?s1) ! 0)"
    "scheduledSources (interruptAudio 0 ?s1) = []"
    "nextStartTime (interruptAudio 0 ?s1) = 0"
    "startedAt (last (nodes (snd (playAudio (\<lambda>y. y) 0 (int16_buffer [3]) (interruptAudio 0 ?s1))))) = 0"
    using busy s1 view by simp_all
  have "playback_state (\<lambda>y. y) 0 LiveKitService_new"
    by (rule playback_state.initial) (simp_all add: LiveKitService_new_def)
  then have "playback_state (\<lambda>y. y) 0 ?s1"
    by (rule playback_state.play)
  then have "playback_state (\<lambda>y. y) 1 ?s1"
    by (rule playback_state.clock) simp
  then have reach: "playback_state (\<lambda>y. y) 1 ?idle"
    by (rule playback_state.ended) (simp_all add: s1)
  have idle: "scheduledSources ?idle = []"
    by (simp add: onended_def s1)
  note quiet = interruptAudio_stops_and_resets
      [where s = ?idle and now = 1 and now' = 1 and audioData = "int16_buffer [3]" and ?pcm16.0 = "[3]"
        and fround = "\<lambda>y. y"]
  have b: "playAudio (\<lambda>y. y) 1 (int16_buffer [3]) (interruptAudio 1 ?idle)
      = playAudio (\<lambda>y. y) 1 (int16_buffer [3]) ?idle"
    using quiet reach idle view by blast
  from s1(1,2) a reach idle b show ?thesis
    by blast
qed

section \<open>The session: function calls\<close>

lemma sendFunctionResult_open:
  "ws s = Some OPEN \<Longrightarrow>
   sendFunctionResult callId result s = (None, emit (Sent (ToolResponse callId result)) s)"
  by (simp add: sendFunctionResult_def)

lemma sendFunctionResult_not_open:
  "ws s \<noteq> Some OPEN \<Longrightarrow>
   sendFunctionResult callId result s = (Some (Error ''Not connected to Gemini''), s)"
  by (auto simp: sendFunctionResult_def)

lemma handleFunctionCall_open:
  assumes "functionHandler s = Some handler" and "during_await env call (ws s) = Some OPEN"
  shows "handleFunctionCall env call s =
     (None, emit (Sent (ToolResponse (call_id call) (response_to handler call)))
              ((emit (FunctionHandlerCalled call) s)\<lparr>ws := Some OPEN\<rparr>))"
  using assms
  by (cases "handler call")
     (simp_all add: handleFunctionCall_def Let_def response_to_def emit_def sendFunctionResult_open)

lemma handleFunctionCall_not_open:
  assumes "functionHandler s = Some handler" and "during_await env call (ws s) \<noteq> Some OPEN"
  shows "handleFunctionCall env call s =
     (Some (Error ''Not connected to Gemini''),
      (emit (FunctionHandlerCalled call) s)\<lparr>ws := during_await env call (ws s)\<rparr>)"
  using assms
  by (cases "handler call")
     (simp_all add: handleFunctionCall_def Let_def emit_def sendFunctionResult_not_open)

lemma error_shaped_errorResult: "error_shaped (errorResult e)"
  by (simp add: error_shaped_def errorResult_def)

lemma connected_with_handler:
  "functionHandler (onFunctionCall handler (socket_opened mars_config (connect mars_config GeminiService_new)))
     = Some handler"
  "ws (onFunctionCall handler (socket_opened mars_config (connect mars_config GeminiService_new)))
     = Some OPEN"
  "trace (onFunctionCall handler (socket_opened mars_config (connect mars_config GeminiService_new)))
     = [Sent (Setup ''You are MARS'')]"
  by (simp_all add: onFunctionCall_def socket_opened_def connect_def GeminiService_new_def
      ws_onopen_def ws_send_def settle_def emit_def mars_config_def)

text \<open>
  C1, as the code has it. A call is given to the registered handler. When the socket is open
  at the time the handler's promise settles, \<open>handleFunctionCall\<close> returns normally, and what
  it adds to the events of the session is the call of the handler followed by exactly one
  response, with the id of the call: the result the handler resolved with, or, when the
  handler rejected, the object built from the rejection, which is a mapping with an \<open>error\<close>
  key. When the socket is missing or not open at that time, the guard of
  \<open>sendFunctionResult\<close> throws, in the \<open>try\<close> block and again in the \<open>catch\<close> block: no
  response is sent and \<open>handleFunctionCall\<close> fails with that exception.
\<close>

theorem handleFunctionCall_answers_once:
  assumes "functionHandler s = Some handler"
  shows "(during_await env call (ws s) = Some OPEN \<longrightarrow>
            fst (handleFunctionCall env call s) = None
          \<and> trace (snd (handleFunctionCall env call s)) =
              trace s @ [FunctionHandlerCalled call,
                         Sent (ToolResponse (call_id call)
                           (case handler call of
                              Resolved result \<Rightarrow> result
                            | Rejected error \<Rightarrow> errorResult error))])
     \<and> (during_await env call (ws s) \<noteq> Some OPEN \<longrightarrow>
            fst (handleFunctionCall env call s) = Some (Error ''Not connected to Gemini'')
          \<and> trace (snd (handleFunctionCall env call s)) = trace s @ [FunctionHandlerCalled call])
     \<and> error_shaped (errorResult error)"
proof (intro conjI impI)
  assume "during_await env call (ws s) = Some OPEN"
  with assms have eq: "handleFunctionCall env call s =
     (None, emit (Sent (ToolResponse (call_id call) (response_to handler call)))
              ((emit (FunctionHandlerCalled call) s)\<lparr>ws := Some OPEN\<rparr>))"
    by (rule handleFunctionCall_open)
  show "fst (handleFunctionCall env call s) = None"
    by (simp add: eq)
  show "trace (snd (handleFunctionCall env call s)) =
      trace s @ [FunctionHandlerCalled call,
                 Sent (ToolResponse (call_id call)
                   (case handler call of
                      Resolved result \<Rightarrow> result
                    | Rejected error \<Rightarrow> errorResult error))]"
    by (simp add: eq response_to_def emit_def)
next
  assume "during_await env call (ws s) \<noteq> Some OPEN"
  with assms have eq: "handleFunctionCall env call s =
     (Some (Error ''Not connected to Gemini''),
      (emit (FunctionHandlerCalled call) s)\<lparr>ws := during_await env call (ws s)\<rparr>)"
    by (rule handleFunctionCall_not_open)
  show "fst (handleFunctionCall env call s) = Some (Error ''Not connected to Gemini'')"
    by (simp add: eq)
  show "trace (snd (handleFunctionCall env call s)) = trace s @ [FunctionHandlerCalled call]"
    by (simp add: eq emit_def)
next
  show "error_shaped (errorResult error)"
    by (rule error_shaped_errorResult)
qed

text \<open>
  The claim as stated fails. A connected session has a handler that resolves at once. The
  call \<open>a\<close> is given to the handler, and \<open>disconnect()\<close> is called while the handler's promise
  is pending. The handler has been called and no response is sent: \<open>handleFunctionCall\<close>
  fails. The same happens when the call arrives in a message; the second call of the batch
  is then not given to the handler at all.
\<close>

theorem handleFunctionCall_unanswered_after_disconnect:
  "functionHandler (onFunctionCall echo_handler
        (socket_opened mars_config (connect mars_config GeminiService_new)))
     = Some echo_handler
   \<and> isConnected (onFunctionCall echo_handler
        (socket_opened mars_config (connect mars_config GeminiService_new)))
   \<and> fst (handleFunctionCall disconnected_meanwhile
        \<lparr>name = ''get_weather'', args = JObject [], call_id = ''a''\<rparr>
        (onFunctionCall echo_handler
          (socket_opened mars_config (connect mars_config GeminiService_new))))
     = Some (Error ''Not connected to Gemini'')
   \<and> trace (snd (handleFunctionCall disconnected_meanwhile
        \<lparr>name = ''get_weather'', args = JObject [], call_id = ''a''\<rparr>
        (onFunctionCall echo_handler
          (socket_opened mars_config (connect mars_config GeminiService_new)))))
     = [Sent (Setup ''You are MARS''),
        FunctionHandlerCalled \<lparr>name = ''get_weather'', args = JObject [], call_id = ''a''\<rparr>]
   \<and> trace (handleMessage disconnected_meanwhile (Message weather_and_search)
        (onFunctionCall echo_handler
          (socket_opened mars_config (connect mars_config GeminiService_new))))
     = [Sent (Setup ''You are MARS''),
        FunctionHandlerCalled \<lparr>name = ''get_weather'', args = JObject [], call_id = ''a''\<rparr>]"
  by (simp add: handleMessage_def weather_and_search_def handleFunctionCall_def Let_def
      onFunctionCall_def socket_opened_def connect_def GeminiService_new_def isConnected_def
      ws_onopen_def ws_send_def settle_def emit_def mars_config_def disconnected_meanwhile_def
      drop_socket_def echo_handler_def sendFunctionResult_def args_or_empty_def reportError_def)

text \<open>
  A connected session whose handler rejects the weather call. With the socket left open the
  call \<open>a\<close> is answered once, with the error object; with the session disconnected while the
  handler runs it is not answered.
\<close>

theorem handleFunctionCall_answers_once_witness:
  "functionHandler (onFunctionCall weather_down_handler
        (socket_opened mars_config (connect mars_config GeminiService_new)))
     = Some weather_down_handler
   \<and> during_await undisturbed \<lparr>name = ''get_weather'', args = JObject [], call_id = ''a''\<rparr>
        (ws (onFunctionCall weather_down_handler
          (socket_opened mars_config (connect mars_config GeminiService_new))))
     = Some OPEN
   \<and> trace (snd (handleFunctionCall undisturbed
        \<lparr>name = ''get_weather'', args = JObject [], call_id = ''a''\<rparr>
        (onFunctionCall weather_down_handler
          (socket_opened mars_config (connect mars_config GeminiService_new)))))
     = [Sent (Setup ''You are MARS''),
        FunctionHandlerCalled \<lparr>name = ''get_weather'', args = JObject [], call_id = ''a''\<rparr>,
        Sent (ToolResponse ''a'' (JObject [(''error'', JString ''Weather service unavailable'')]))]
   \<and> during_await disconnected_meanwhile
        \<lparr>name = ''get_weather'', args = JObject [], call_id = ''a''\<rparr>
        (ws (onFunctionCall weather_down_handler
          (socket_opened mars_config (connect mars_config GeminiService_new))))
     \<noteq> Some OPEN
   \<and> trace (snd (handleFunctionCall disconnected_meanwhile
        \<lparr>name = ''get_weather'', args = JObject [], call_id = ''a''\<rparr>
        (onFunctionCall weather_down_handler
          (socket_opened mars_config (connect mars_config GeminiService_new)))))
     = [Sent (Setup ''You are MARS''),
        FunctionHandlerCalled \<lparr>name = ''get_weather'', args = JObject [], call_id = ''a''\<rparr>]"
proof -
  let ?s = "onFunctionCall weather_down_handler
      (socket_opened mars_config (connect mars_config GeminiService_new))"
  let ?call = "\<lparr>name = ''get_weather'', args = JObject [], call_id = ''a''\<rparr>"
  note s = connected_with_handler [of weather_down_handler]
  have kept: "during_await undisturbed ?call (ws ?s) = Some OPEN"
    by (simp add: s undisturbed_def keep_socket_def)
  have lost: "during_await disconnected_meanwhile ?call (ws ?s) \<noteq> Some OPEN"
    by (simp add: disconnected_meanwhile_def drop_socket_def)
  from handleFunctionCall_answers_once [OF s(1), of undisturbed ?call] kept
  have "trace (snd (handleFunctionCall undisturbed ?call ?s)) =
      trace ?s @ [FunctionHandlerCalled ?call,
                  Sent (ToolResponse (call_id ?call)
                    (case weather_down_handler ?call of
                       Resolved result \<Rightarrow> result
                     | Rejected error \<Rightarrow> errorResult error))]"
    by blast
  then have answered: "trace (snd (handleFunctionCall undisturbed ?call ?s)) =
      [Sent (Setup ''You are MARS''), FunctionHandlerCalled ?call,
       Sent (ToolResponse ''a'' (JObject [(''error'', JString ''Weather service unavailable'')]))]"
    by (simp add: s(3) weather_down_handler_def errorResult_def)
  from handleFunctionCall_answers_once [OF s(1), of disconnected_meanwhile ?call] lost
  have "trace (snd (handleFunctionCall disconnected_meanwhile ?call ?s)) =
      trace ?s @ [FunctionHandlerCalled ?call]"
    by blast
  then have unanswered: "trace (snd (handleFunctionCall disconnected_meanwhile ?call ?s)) =
      [Sent (Setup ''You are MARS''), FunctionHandlerCalled ?call]"
    by (simp add: s(3))
  from s(1) kept answered lost unanswered show ?thesis
    by blast
qed



lemma handleToolCalls_open:
  assumes "functionHandler s = Some handler" and "ws s = Some OPEN"
    and "\<And>call. during_await env call (Some OPEN) = Some OPEN"
  shows "handleToolCalls env calls s =
     (None, s\<lparr>trace := trace s @ concat (map (\<lambda>fc.
        [FunctionHandlerCalled (call_of fc),
         Sent (ToolResponse (tool_id fc) (response_to handler (call_of fc)))]) calls)\<rparr>)"
  using assms(1,2)
proof (induction calls arbitrary: s)
  case Nil
  then show ?case by simp
next
  case (Cons fc calls)
  let ?s1 = "emit (Sent (ToolResponse (call_id (call_of fc)) (response_to handler (call_of fc))))
              ((emit (FunctionHandlerCalled (call_of fc)) s)\<lparr>ws := Some OPEN\<rparr>)"
  have step: "handleFunctionCall env (call_of fc) s = (None, ?s1)"
    using Cons.prems assms(3) by (simp add: handleFunctionCall_open)
  have "functionHandler ?s1 = Some handler" "ws ?s1 = Some OPEN"
    using Cons.prems by (simp_all add: emit_def)
  from Cons.IH [OF this] step Cons.prems show ?case
    by (simp add: call_of_def [symmetric] emit_def) (simp add: call_of_def)
qed

lemma handleToolCalls_sequential:
  assumes "functionHandler s = Some handler"
  shows "\<exists>evs. trace (snd (handleToolCalls env calls s)) = trace s @ evs \<and> sequential evs"
  using assms
proof (induction calls arbitrary: s)
  case Nil
  then show ?case by simp
next
  case (Cons fc calls)
  show ?case
  proof (cases "during_await env (call_of fc) (ws s) = Some OPEN")
    case True
    let ?s1 = "emit (Sent (ToolResponse (call_id (call_of fc)) (response_to handler (call_of fc))))
              ((emit (FunctionHandlerCalled (call_of fc)) s)\<lparr>ws := Some OPEN\<rparr>)"
    have step: "handleFunctionCall env (call_of fc) s = (None, ?s1)"
      using Cons.prems True by (simp add: handleFunctionCall_open)
    have "functionHandler ?s1 = Some handler"
      using Cons.prems by (simp add: emit_def)
    from Cons.IH [OF this] obtain evs where
      evs: "trace (snd (handleToolCalls env calls ?s1)) = trace ?s1 @ evs" "sequential evs"
      by blast
    have "trace (snd (handleToolCalls env (fc # calls) s)) =
          trace s @ (FunctionHandlerCalled (call_of fc) #
             Sent (ToolResponse (call_id (call_of fc)) (response_to handler (call_of fc))) # evs)"
      using step evs(1) by (simp add: call_of_def [symmetric] emit_def)
    moreover have "sequential (FunctionHandlerCalled (call_of fc) #
             Sent (ToolResponse (call_id (call_of fc)) (response_to handler (call_of fc))) # evs)"
      using evs(2) by simp
    ultimately show ?thesis
      by blast
  next
    case False
    have "handleFunctionCall env (call_of fc) s =
       (Some (Error ''Not connected to Gemini''),
        (emit (FunctionHandlerCalled (call_of fc)) s)\<lparr>ws := during_await env (call_of fc) (ws s)\<rparr>)"
      using Cons.prems False by (rule handleFunctionCall_not_open)
    then have "trace (snd (handleToolCalls env (fc # calls) s)) =
        trace s @ [FunctionHandlerCalled (call_of fc)]"
      by (simp add: call_of_def [symmetric] emit_def)
    moreover have "sequential [FunctionHandlerCalled (call_of fc)]"
      by simp
    ultimately show ?thesis
      by blast
  qed
qed

text \<open>
  C2, as the code has it. The requests of a batch are handled one at a time and in their
  order, each awaited before the next. Whatever happens to the socket, the events a batch adds
  are sequential: the handler is called for a request only after the response to the request
  before it has been sent, and a request whose response cannot be sent ends the batch. When
  the socket stays open, a message that carries a batch adds, for each request in turn, the
  call of the handler and then the response; for two requests the handler is called for the
  second after the response to the first has been sent.
\<close>

theorem tool_calls_handled_in_turn:
  assumes "functionHandler s = Some handler"
  shows "(\<exists>evs. trace (snd (handleToolCalls env calls s)) = trace s @ evs \<and> sequential evs)
     \<and> (ws s = Some OPEN \<and> (\<forall>call. during_await env call (Some OPEN) = Some OPEN) \<longrightarrow>
          handleMessage env
            (Message \<lparr>setupComplete = False, toolCall = Some calls, serverContent = None,
                       toolCallCancellation = cancelled\<rparr>) s
            = s\<lparr>trace := trace s @ concat (map (\<lambda>fc.
                  [FunctionHandlerCalled (call_of fc),
                   Sent (ToolResponse (tool_id fc) (response_to handler (call_of fc)))]) calls)\<rparr>)"
  using assms
  by (auto simp: handleToolCalls_sequential handleMessage_def handleToolCalls_open)

text \<open>
  The claim as stated fails. A connected session whose handler resolves at once receives one
  message with the batch \<open>get_weather\<close> (id \<open>a\<close>), \<open>web_search\<close> (id \<open>b\<close>). The response
  to \<open>a\<close> is sent before the handler is called for \<open>b\<close>.
\<close>

theorem tool_calls_not_concurrent:
  "trace (handleMessage undisturbed (Message weather_and_search)
            (onFunctionCall echo_handler (socket_opened mars_config (connect mars_config GeminiService_new))))
   = [Sent (Setup ''You are MARS''),
      FunctionHandlerCalled \<lparr>name = ''get_weather'', args = JObject [], call_id = ''a''\<rparr>,
      Sent (ToolResponse ''a'' (JString ''get_weather'')),
      FunctionHandlerCalled \<lparr>name = ''web_search'', args = JObject [], call_id = ''b''\<rparr>,
      Sent (ToolResponse ''b'' (JString ''web_search''))]"
  by (simp add: handleMessage_def weather_and_search_def handleFunctionCall_def Let_def
      onFunctionCall_def socket_opened_def connect_def GeminiService_new_def
      ws_onopen_def ws_send_def settle_def emit_def mars_config_def undisturbed_def keep_socket_def
      echo_handler_def sendFunctionResult_def args_or_empty_def)

text \<open>The same batch on a session whose handler rejects the weather call.\<close>

theorem tool_calls_handled_in_turn_witness:
  "functionHandler (onFunctionCall weather_down_handler
        (socket_opened mars_config (connect mars_config GeminiService_new)))
     = Some weather_down_handler
   \<and> ws (onFunctionCall weather_down_handler
        (socket_opened mars_config (connect mars_config GeminiService_new))) = Some OPEN
   \<and> trace (handleMessage undisturbed (Message weather_and_search)
        (onFunctionCall weather_down_handler
          (socket_opened mars_config (connect mars_config GeminiService_new))))
     = [Sent (Setup ''You are MARS''),
        FunctionHandlerCalled \<lparr>name = ''get_weather'', args = JObject [], call_id = ''a''\<rparr>,
        Sent (ToolResponse ''a'' (JObject [(''error'', JString ''Weather service unavailable'')])),
        FunctionHandlerCalled \<lparr>name = ''web_search'', args = JObject [], call_id = ''b''\<rparr>,
        Sent (ToolResponse ''b'' (JString ''web_search''))]"
proof -
  let ?s = "onFunctionCall weather_down_handler
      (socket_opened mars_config (connect mars_config GeminiService_new))"
  note s = connected_with_handler [of weather_down_handler]
  have quiet: "\<forall>call. during_await undisturbed call (Some OPEN) = Some OPEN"
    by (simp add: undisturbed_def keep_socket_def)
  from tool_calls_handled_in_turn [OF s(1), of undisturbed
      "[\<lparr>tool_name = ''get_weather'', tool_args = None, tool_id = ''a''\<rparr>,
        \<lparr>tool_name = ''web_search'', tool_args = None, tool_id = ''b''\<rparr>]" False]
    s(2) quiet
  have "handleMessage undisturbed (Message weather_and_search) ?s
      = ?s\<lparr>trace := trace ?s @ concat (map (\<lambda>fc.
            [FunctionHandlerCalled (call_of fc),
             Sent (ToolResponse (tool_id fc) (response_to weather_down_handler (call_of fc)))])
          [\<lparr>tool_name = ''get_weather'', tool_args = None, tool_id = ''a''\<rparr>,
           \<lparr>tool_name = ''web_search'', tool_args = None, tool_id = ''b''\<rparr>])\<rparr>"
    unfolding weather_and_search_def by blast
  then have "trace (handleMessage undisturbed (Message weather_and_search) ?s)
      = [Sent (Setup ''You are MARS''),
        FunctionHandlerCalled \<lparr>name = ''get_weather'', args = JObject [], call_id = ''a''\<rparr>,
        Sent (ToolResponse ''a'' (JObject [(''error'', JString ''Weather service unavailable'')])),
        FunctionHandlerCalled \<lparr>name = ''web_search'', args = JObject [], call_id = ''b''\<rparr>,
        Sent (ToolResponse ''b'' (JString ''web_search''))]"
    by (simp add: s(3) call_of_def response_to_def weather_down_handler_def errorResult_def
        args_or_empty_def)
  with s(1,2) show ?thesis
    by blast
qed

section \<open>The session: readiness\<close>

text \<open>
  C3, as the code has it. The session is ready (the promise of \<open>connect\<close> is fulfilled and
  \<open>isConnected\<close> holds, so that the senders accept messages) as soon as the socket opens,
  right after the setup message has been written; it does not wait for the acknowledgment of
  the remote party. Before the socket opens it is not ready: after \<open>connect\<close> the promise is
  pending, \<open>isConnected\<close> is false and nothing has been sent. A \<open>setupComplete\<close> message
  changes nothing in the session.
\<close>

theorem ready_when_socket_opens:
  "(ws s = Some CONNECTING \<and> connectPromise s = Some Pending \<longrightarrow>
       connectPromise (socket_opened config s) = Some Fulfilled
     \<and> isConnected (socket_opened config s)
     \<and> trace (socket_opened config s) = trace s @ [Sent (Setup (systemPrompt config))])
   \<and> \<not> isConnected (connect config s)
   \<and> connectPromise (connect config s) = Some Pending
   \<and> trace (connect config s) = trace s
   \<and> (setupComplete message \<longrightarrow> handleMessage env (Message message) s = s)"
  by (simp add: socket_opened_def connect_def isConnected_def
      ws_onopen_def ws_send_def settle_def emit_def handleMessage_def)

text \<open>
  The claim as stated fails. A new service connects and its socket opens; no message has
  been received. The promise of \<open>connect\<close> is fulfilled, the session reports itself connected,
  and it accepts and sends a text message.
\<close>

theorem ready_before_setupComplete:
  "connectPromise (socket_opened mars_config (connect mars_config GeminiService_new)) = Some Fulfilled
   \<and> isConnected (socket_opened mars_config (connect mars_config GeminiService_new))
   \<and> trace (socket_opened mars_config (connect mars_config GeminiService_new))
       = [Sent (Setup ''You are MARS'')]
   \<and> fst (sendText ''Hello'' (socket_opened mars_config (connect mars_config GeminiService_new))) = None
   \<and> trace (snd (sendText ''Hello'' (socket_opened mars_config (connect mars_config GeminiService_new))))
       = [Sent (Setup ''You are MARS''), Sent (ClientContent ''Hello'')]"
  by (simp add: socket_opened_def connect_def GeminiService_new_def isConnected_def sendText_def
      ws_onopen_def ws_send_def settle_def emit_def mars_config_def)

text \<open>
  A new service connects, its socket opens and the acknowledgment arrives: the session is
  ready before the acknowledgment, which leaves it as it is.
\<close>

theorem ready_when_socket_opens_witness:
  "ws (connect mars_config GeminiService_new) = Some CONNECTING
   \<and> connectPromise (connect mars_config GeminiService_new) = Some Pending
   \<and> \<not> isConnected (connect mars_config GeminiService_new)
   \<and> connectPromise (socket_opened mars_config (connect mars_config GeminiService_new)) = Some Fulfilled
   \<and> isConnected (socket_opened mars_config (connect mars_config GeminiService_new))
   \<and> setupComplete (weather_and_search\<lparr>setupComplete := True\<rparr>)
   \<and> handleMessage undisturbed (Message (weather_and_search\<lparr>setupComplete := True\<rparr>))
        (socket_opened mars_config (connect mars_config GeminiService_new))
       = socket_opened mars_config (connect mars_config GeminiService_new)"
proof -
  let ?s = "connect mars_config GeminiService_new"
  have s: "ws ?s = Some CONNECTING" "connectPromise ?s = Some Pending"
    by (simp_all add: connect_def)
  have m: "setupComplete (weather_and_search\<lparr>setupComplete := True\<rparr>)"
    by simp
  note at_open = ready_when_socket_opens [where s = ?s and config = mars_config]
  note before = ready_when_socket_opens [where s = GeminiService_new and config = mars_config]
  note ack = ready_when_socket_opens
      [where s = "socket_opened mars_config ?s" and env = undisturbed
        and message = "weather_and_search\<lparr>setupComplete := True\<rparr>"]
  from at_open s have "connectPromise (socket_opened mars_config ?s) = Some Fulfilled"
    "isConnected (socket_opened mars_config ?s)"
    by blast+
  moreover from before have "\<not> isConnected ?s"
    by blast
  moreover from ack m have "handleMessage undisturbed (Message (weather_and_search\<lparr>setupComplete := True\<rparr>))
      (socket_opened mars_config ?s) = socket_opened mars_config ?s"
    by blast
  ultimately show ?thesis
    using s m by blast
qed

section \<open>Audio captured while the session is not open\<close>

lemma onFrame_not_open: "\<not> isConnected s \<Longrightarrow> onFrame audioData s = s"
  by (auto simp: onFrame_def sendAudio_def isConnected_def)

lemma deliver_not_open: "\<not> isConnected s \<Longrightarrow> deliver evs s = s"
  by (induction evs s rule: deliver.induct) (simp_all add: onFrame_not_open)

lemma onaudioprocess_keeps_no_audio:
  "(snd (onaudioprocess inputData c))\<lparr>wasActive := w\<rparr> = c\<lparr>wasActive := w\<rparr>"
  by (simp add: onaudioprocess_def Let_def)

lemma capture_keeps_no_audio:
  "(snd (capture blocks c))\<lparr>wasActive := w\<rparr> = c\<lparr>wasActive := w\<rparr>"
proof (induction blocks arbitrary: c)
  case Nil
  then show ?case by simp
next
  case (Cons inputData blocks)
  have "(snd (capture blocks (snd (onaudioprocess inputData c))))\<lparr>wasActive := w\<rparr>
      = (snd (onaudioprocess inputData c))\<lparr>wasActive := w\<rparr>"
    by (rule Cons.IH)
  then show ?case
    by (simp add: onaudioprocess_keeps_no_audio split_beta Let_def)
qed

text \<open>
  C9. While the socket of the session is missing or not open, \<open>sendAudio\<close> throws and leaves
  the session as it is: nothing is written and nothing is kept. The callback of the page
  catches the exception, so a captured frame leaves the session unchanged, and so does any
  sequence of captured blocks. The capture keeps nothing of a block either: handling blocks
  changes no field of the service but \<open>wasActive\<close>. So nothing is left to send once the
  socket opens: what the session does afterwards is what it does when the blocks had never
  been captured.
\<close>

theorem audio_dropped_while_not_open:
  assumes "\<not> isConnected s"
  shows "sendAudio audioData s = (Some (Error ''Not connected to Gemini''), s)
     \<and> onFrame audioData s = s
     \<and> deliver (fst (capture blocks c)) s = s
     \<and> (snd (capture blocks c))\<lparr>wasActive := w\<rparr> = c\<lparr>wasActive := w\<rparr>
     \<and> deliver later (socket_opened config (deliver (fst (capture blocks c)) s))
         = deliver later (socket_opened config s)"
  using assms
  by (auto simp: onFrame_not_open deliver_not_open capture_keeps_no_audio sendAudio_def
      isConnected_def)

text \<open>
  Capture is running, without a voice-activity callback, while the socket is still connecting. A captured block is dropped; after
  the socket has opened, a frame is sent, and the session has sent the setup message and that
  frame only.
\<close>

theorem audio_dropped_while_not_open_witness:
  "\<not> isConnected (connect mars_config GeminiService_new)
   \<and> fst (capture [[1 / 2, - 1 / 3]]
        (snd (startAudioCapture False (LiveKitService_new\<lparr>localAudioTrack := Some True\<rparr>))))
       = [AudioData (int16_buffer (floatToPCM16 [1 / 2, - 1 / 3]))]
   \<and> deliver (fst (capture [[1 / 2, - 1 / 3]]
        (snd (startAudioCapture False (LiveKitService_new\<lparr>localAudioTrack := Some True\<rparr>)))))
        (connect mars_config GeminiService_new)
       = connect mars_config GeminiService_new
   \<and> trace (deliver [AudioData (int16_buffer [3])]
        (socket_opened mars_config
          (deliver (fst (capture [[1 / 2, - 1 / 3]]
              (snd (startAudioCapture False (LiveKitService_new\<lparr>localAudioTrack := Some True\<rparr>)))))
            (connect mars_config GeminiService_new))))
       = [Sent (Setup ''You are MARS''), Sent (RealtimeInput (int16_buffer [3]))]"
proof -
  let ?s = "connect mars_config GeminiService_new"
  let ?c = "snd (startAudioCapture False (LiveKitService_new\<lparr>localAudioTrack := Some True\<rparr>))"
  have closed: "\<not> isConnected ?s"
    by (simp add: connect_def isConnected_def)
  note dropped = audio_dropped_while_not_open
      [OF closed, where blocks = "[[1 / 2, - 1 / 3]]" and c = ?c and config = mars_config
        and later = "[AudioData (int16_buffer [3])]"]
  have captured: "fst (capture [[1 / 2, - 1 / 3]] ?c)
      = [AudioData (int16_buffer (floatToPCM16 [1 / 2, - 1 / 3]))]"
    by (simp add: onaudioprocess_def Let_def startAudioCapture_def LiveKitService_new_def
        isActive_def)
  have after: "trace (deliver [AudioData (int16_buffer [3])] (socket_opened mars_config ?s))
      = [Sent (Setup ''You are MARS''), Sent (RealtimeInput (int16_buffer [3]))]"
    by (simp add: onFrame_def sendAudio_def socket_opened_def connect_def GeminiService_new_def
        ws_onopen_def ws_send_def settle_def emit_def mars_config_def)
  from dropped have "deliver (fst (capture [[1 / 2, - 1 / 3]] ?c)) ?s = ?s"
    "deliver [AudioData (int16_buffer [3])]
        (socket_opened mars_config (deliver (fst (capture [[1 / 2, - 1 / 3]] ?c)) ?s))
      = deliver [AudioData (int16_buffer [3])] (socket_opened mars_config ?s)"
    by blast+
  with closed captured after show ?thesis
    by simp
qed

end
